theory Spec2Isabelle
  imports Main "HOL-Library.AList"
begin

section \<open>Suite documents\<close>

text \<open>
  A suite is the Python value loaded from a suite description: nested dictionaries with
  string keys, lists, strings, booleans, integers and \<open>None\<close>. A dictionary is an
  association list in insertion order: \<open>map_of\<close> is the lookup, \<open>AList.update\<close>
  overwrites the value of a key where it stands and puts a new key last (as an
  assignment \<open>d[k] = v\<close> does), \<open>AList.delete\<close> removes a key (as \<open>d.pop(k, None)\<close> does).
  The suite is a tree: no object is reached through two fields, so a mutation in place
  is seen under the one key it was reached by, and is written back there.
\<close>

datatype pyval =
    PNone
  | PBool bool
  | PInt int
  | PStr string
  | PList "pyval list"
  | PDict "(string \<times> pyval) list"

type_synonym dict = "(string \<times> pyval) list"

text \<open>
  The exceptions the module can raise. \<open>RuntimeError\<close> is the one the module raises
  itself; it carries the hook entry that its message prints. The others come from the
  Python operations applied to a value of the wrong type or to a missing key.
\<close>

datatype error =
    AttributeError
  | TypeError
  | KeyError
  | RuntimeError pyval

text \<open>
  Every function of the module mutates the suite in place. A run either returns, with
  the suite as it is then (\<open>Inr\<close>), or raises, with the exception and the suite as the
  mutations done so far have left it (\<open>Inl\<close>).
\<close>

type_synonym outcome = "(error \<times> dict) + dict"

text \<open>Python's truth value of an object, as \<open>if x:\<close> and \<open>not x\<close> test it.\<close>

fun truthy :: "pyval \<Rightarrow> bool" where
  "truthy PNone = False"
| "truthy (PBool b) = b"
| "truthy (PInt i) = (i \<noteq> 0)"
| "truthy (PStr s) = (s \<noteq> [])"
| "truthy (PList xs) = (xs \<noteq> [])"
| "truthy (PDict d) = (d \<noteq> [])"

text \<open>Iterating over a string yields its characters as one-character strings.\<close>

definition chars_of :: "string \<Rightarrow> pyval list" where
  "chars_of s = map (\<lambda>c. PStr [c]) s"

text \<open>
  \<open>d.setdefault(k, {})\<close> followed by a method call on what it returns. The key is
  added with an empty dictionary when it is missing. The value found is then used as a
  dictionary: \<open>body\<close> is what the rest of the statement does to it, in place, so its
  result is stored back under the key. A value that is not a dictionary has none of the
  methods \<open>setdefault\<close>, \<open>update\<close>, \<open>get\<close>, and the call raises \<open>AttributeError\<close>.
\<close>

definition setdefault_dict :: "string \<Rightarrow> (dict \<Rightarrow> outcome) \<Rightarrow> dict \<Rightarrow> outcome" where
  "setdefault_dict k body d =
     (let d1 = (if map_of d k = None then AList.update k (PDict []) d else d) in
      case map_of d1 k of
        Some (PDict sub) \<Rightarrow>
          (case body sub of
             Inl (e, sub') \<Rightarrow> Inl (e, AList.update k (PDict sub') d1)
           | Inr sub' \<Rightarrow> Inr (AList.update k (PDict sub') d1))
      | _ \<Rightarrow> Inl (AttributeError, d1))"

section \<open>The module \<open>external_suite\<close>\<close>

text \<open>
  The calls to the logger at the head of each function write a warning and return
  nothing that the function reads; they are left out.
\<close>

definition INCOMPATIBLE_HOOKS :: "string list" where
  "INCOMPATIBLE_HOOKS = [''CleanEveryN'', ''ContinuousStepdown'', ''CheckOrphansDeleted'']"

text \<open>\<open>x not in INCOMPATIBLE_HOOKS\<close>: no element of the list is equal to \<open>x\<close>.\<close>

definition not_incompatible :: "pyval \<Rightarrow> bool" where
  "not_incompatible x = (x \<notin> set (map PStr INCOMPATIBLE_HOOKS))"

subsection \<open>\<open>delete_archival\<close>\<close>

text \<open>
  \<^verbatim>\<open>suite.pop("archive", None)\<close> and then
  \<^verbatim>\<open>suite.get("executor", {}).pop("archive", None)\<close>. Without an \<open>executor\<close> the second
  \<open>pop\<close> works on a fresh dictionary that is thrown away. A list has a \<open>pop\<close> that
  takes one argument at most (\<open>TypeError\<close>); the other values have no \<open>pop\<close>.
\<close>

definition delete_archival :: "dict \<Rightarrow> outcome" where
  "delete_archival suite =
     (let suite1 = AList.delete ''archive'' suite in
      case map_of suite1 ''executor'' of
        None \<Rightarrow> Inr suite1
      | Some (PDict ex) \<Rightarrow>
          Inr (AList.update ''executor'' (PDict (AList.delete ''archive'' ex)) suite1)
      | Some (PList xs) \<Rightarrow> Inl (TypeError, suite1)
      | Some _ \<Rightarrow> Inl (AttributeError, suite1))"

subsection \<open>\<open>make_hooks_compatible\<close>\<close>

text \<open>
  The comprehension of the string branch,
  \<^verbatim>\<open>[hook for hook in hooks if hook not in INCOMPATIBLE_HOOKS]\<close>: it compares each
  element with the names and reads no field of it, so it raises nothing.
\<close>

definition str_hooks :: "pyval list \<Rightarrow> pyval list" where
  "str_hooks hooks = filter not_incompatible hooks"

text \<open>
  The comprehension of the dictionary branch,
  \<^verbatim>\<open>[hook for hook in hooks if hook["class"] not in INCOMPATIBLE_HOOKS]\<close>, element by
  element from the left: \<open>hook["class"]\<close> raises \<open>KeyError\<close> on a dictionary without
  that key and \<open>TypeError\<close> on a value that is not a dictionary, and the first
  exception ends the comprehension.
\<close>

fun dict_hooks :: "pyval list \<Rightarrow> error + pyval list" where
  "dict_hooks [] = Inr []"
| "dict_hooks (hook # hooks) =
     (case hook of
        PDict d \<Rightarrow>
          (case map_of d ''class'' of
             None \<Rightarrow> Inl KeyError
           | Some c \<Rightarrow>
               (case dict_hooks hooks of
                  Inl e \<Rightarrow> Inl e
                | Inr rest \<Rightarrow> Inr (if not_incompatible c then hook # rest else rest)))
      | _ \<Rightarrow> Inl TypeError)"

text \<open>
  The body of the \<open>if\<close>, given the first element \<open>hooks[0]\<close> and the elements that
  the comprehension iterates over: the new value of \<open>suite["executor"]["hooks"]\<close>, or
  the exception.
\<close>

definition new_hooks :: "pyval \<Rightarrow> pyval list \<Rightarrow> error + pyval" where
  "new_hooks first hooks =
     (case first of
        PStr s \<Rightarrow> Inr (PList (PStr ''AntithesisLogging'' # str_hooks hooks))
      | PDict d \<Rightarrow>
          (case dict_hooks hooks of
             Inl e \<Rightarrow> Inl e
           | Inr rest \<Rightarrow> Inr (PList (PDict [(''class'', PStr ''AntithesisLogging'')] # rest)))
      | _ \<Rightarrow> Inl (RuntimeError first))"

text \<open>
  \<open>hooks[0]\<close> and the iteration, by the type of the truthy value \<open>hooks\<close>: a list
  gives its first element and its elements; a string gives its first character and its
  characters; a dictionary is indexed by the key \<open>0\<close>, which no dictionary with string
  keys has (\<open>KeyError\<close>); a boolean or an integer cannot be indexed (\<open>TypeError\<close>).
\<close>

definition hooks_rewrite :: "pyval \<Rightarrow> error + pyval" where
  "hooks_rewrite hooks =
     (case hooks of
        PList (h # hs) \<Rightarrow> new_hooks h (h # hs)
      | PStr (c # cs) \<Rightarrow> new_hooks (PStr [c]) (chars_of (c # cs))
      | PDict d \<Rightarrow> Inl KeyError
      | _ \<Rightarrow> Inl TypeError)"

text \<open>
  The condition \<^verbatim>\<open>suite.get("executor", {}).get("hooks", None)\<close> raises
  \<open>AttributeError\<close> when \<open>executor\<close> is not a dictionary. Each branch computes the
  whole new list before the assignment, so an exception leaves the suite as it was.
\<close>

definition make_hooks_compatible :: "dict \<Rightarrow> outcome" where
  "make_hooks_compatible suite =
     (case map_of suite ''executor'' of
        None \<Rightarrow> Inr suite
      | Some (PDict ex) \<Rightarrow>
          (case map_of ex ''hooks'' of
             None \<Rightarrow> Inr suite
           | Some hooks \<Rightarrow>
               if truthy hooks then
                 (case hooks_rewrite hooks of
                    Inl e \<Rightarrow> Inl (e, suite)
                  | Inr hooks' \<Rightarrow>
                      Inr (AList.update ''executor''
                             (PDict (AList.update ''hooks'' hooks' ex)) suite))
               else Inr suite)
      | Some _ \<Rightarrow> Inl (AttributeError, suite))"

subsection \<open>\<open>update_test_data\<close>\<close>

text \<open>
  One statement: five \<open>setdefault\<close> calls, each on what the one before returned, and
  \<^verbatim>\<open>.update({"useActionPermittedFile": False})\<close> on the last. \<open>update\<close> overwrites the
  key where it stands, or puts it last when it is new.
\<close>

definition update_test_data :: "dict \<Rightarrow> outcome" where
  "update_test_data suite =
     setdefault_dict ''executor''
       (setdefault_dict ''config''
         (setdefault_dict ''shell_options''
           (setdefault_dict ''global_vars''
             (setdefault_dict ''TestData''
               (\<lambda>td. Inr (AList.update ''useActionPermittedFile'' (PBool False) td))))))
       suite"

subsection \<open>\<open>update_shell\<close>\<close>

text \<open>
  The first statement ends with \<^verbatim>\<open>.setdefault("eval", "")\<close>, whose result is not
  used. The second statement reads \<open>eval\<close> along the path that the first one has made
  and applies \<open>+=\<close> with the statement text: a string is replaced by the concatenation,
  a list is extended by the characters of the text, and the other values raise
  \<open>TypeError\<close>.
\<close>

definition jsTestLog_noop :: string where
  "jsTestLog_noop = ''jsTestLog = Function.prototype;''"

definition eval_append :: "dict \<Rightarrow> outcome" where
  "eval_append so =
     (let so1 = (if map_of so ''eval'' = None then AList.update ''eval'' (PStr []) so else so) in
      case map_of so1 ''eval'' of
        Some (PStr s) \<Rightarrow> Inr (AList.update ''eval'' (PStr (s @ jsTestLog_noop)) so1)
      | Some (PList xs) \<Rightarrow> Inr (AList.update ''eval'' (PList (xs @ chars_of jsTestLog_noop)) so1)
      | _ \<Rightarrow> Inl (TypeError, so1))"

definition update_shell :: "dict \<Rightarrow> outcome" where
  "update_shell suite =
     setdefault_dict ''executor''
       (setdefault_dict ''config''
         (setdefault_dict ''shell_options'' eval_append))
       suite"

subsection \<open>\<open>update_exclude_tags\<close>\<close>

text \<open>
  \<open>append\<close> exists on lists only: a truthy \<open>exclude_with_any_tags\<close> that is not a
  list raises \<open>AttributeError\<close>.
\<close>

definition exclude_tags :: "dict \<Rightarrow> outcome" where
  "exclude_tags sel =
     (let old = (case map_of sel ''exclude_with_any_tags'' of None \<Rightarrow> PNone | Some v \<Rightarrow> v) in
      if \<not> truthy old then
        Inr (AList.update ''exclude_with_any_tags'' (PList [PStr ''antithesis_incompatible'']) sel)
      else
        (case old of
           PList tags \<Rightarrow>
             Inr (AList.update ''exclude_with_any_tags''
                    (PList (tags @ [PStr ''antithesis_incompatible''])) sel)
         | _ \<Rightarrow> Inl (AttributeError, sel)))"

definition update_exclude_tags :: "dict \<Rightarrow> outcome" where
  "update_exclude_tags suite = setdefault_dict ''selector'' exclude_tags suite"

subsection \<open>\<open>make_external\<close>\<close>

text \<open>The next statement runs on the suite the previous one returned; an exception ends the run.\<close>

definition and_then :: "outcome \<Rightarrow> (dict \<Rightarrow> outcome) \<Rightarrow> outcome" where
  "and_then r f = (case r of Inl x \<Rightarrow> Inl x | Inr suite \<Rightarrow> f suite)"

definition make_external :: "dict \<Rightarrow> outcome" where
  "make_external suite =
     and_then (and_then (and_then (and_then (delete_archival suite)
       make_hooks_compatible) update_test_data) update_shell) update_exclude_tags"

section \<open>Reading a document\<close>

text \<open>
  \<open>get_path ks v\<close> goes down from \<open>v\<close> through the dictionaries under the keys
  \<open>ks\<close>, and is \<open>None\<close> when a key is missing on the way: \<open>get_path [''a'', ''b''] v\<close>
  is the field \<open>a.b\<close> of \<open>v\<close>.
\<close>

fun get_path :: "string list \<Rightarrow> pyval \<Rightarrow> pyval option" where
  "get_path [] v = Some v"
| "get_path (k # ks) v =
     (case v of
        PDict d \<Rightarrow> (case map_of d k of None \<Rightarrow> None | Some w \<Rightarrow> get_path ks w)
      | _ \<Rightarrow> None)"

text \<open>
  The shape that a suite description gives to the fields the module goes through: every key
  of the path that is there holds a dictionary (keys may be missing, at any depth).
\<close>

fun dicts_along :: "string list \<Rightarrow> pyval \<Rightarrow> bool" where
  "dicts_along [] v = (case v of PDict d \<Rightarrow> True | _ \<Rightarrow> False)"
| "dicts_along (k # ks) v =
     (case v of
        PDict d \<Rightarrow> (case map_of d k of None \<Rightarrow> True | Some w \<Rightarrow> dicts_along ks w)
      | _ \<Rightarrow> False)"

text \<open>A chain of \<open>setdefault\<close> calls along a path, and the dictionary it reaches.\<close>

fun setdefault_path :: "string list \<Rightarrow> (dict \<Rightarrow> outcome) \<Rightarrow> dict \<Rightarrow> outcome" where
  "setdefault_path [] body = body"
| "setdefault_path (k # ks) body = setdefault_dict k (setdefault_path ks body)"

definition dict_at :: "string list \<Rightarrow> dict \<Rightarrow> dict" where
  "dict_at ks d = (case get_path ks (PDict d) of Some (PDict sub) \<Rightarrow> sub | _ \<Rightarrow> [])"

section \<open>Association lists and chains of \<open>setdefault\<close>\<close>

lemma map_of_update_same: "map_of (AList.update k v al) k = Some v"
  by (simp add: AList.update_conv')

lemma map_of_update_other: "k' \<noteq> k \<Longrightarrow> map_of (AList.update k v al) k' = map_of al k'"
  by (simp add: AList.update_conv')

lemma setdefault_dict_Inr:
  assumes "setdefault_dict k body d = Inr r"
  obtains sub sub' where "body sub = Inr sub'"
    and "r = AList.update k (PDict sub') d"
    and "(map_of d k = None \<and> sub = []) \<or> map_of d k = Some (PDict sub)"
proof (cases "map_of d k")
  case None
  with assms that show ?thesis
    by (auto simp: setdefault_dict_def map_of_update_same Let_def
             split: sum.splits prod.splits)
next
  case (Some v)
  with assms that show ?thesis
    by (auto simp: setdefault_dict_def Let_def
             split: sum.splits prod.splits pyval.splits)
qed

lemma get_path_empty_dict: "ks \<noteq> [] \<Longrightarrow> get_path ks (PDict []) = None"
  by (cases ks) simp_all

lemma dict_at_empty: "dict_at ks [] = []"
  by (cases ks) (simp_all add: dict_at_def)

lemma dict_at_Cons_absent: "map_of d k = None \<Longrightarrow> dict_at (k # ks) d = []"
  by (simp add: dict_at_def)

lemma dict_at_Cons_dict: "map_of d k = Some (PDict sub) \<Longrightarrow> dict_at (k # ks) d = dict_at ks sub"
  by (simp add: dict_at_def)

lemma setdefault_path_Inr:
  "setdefault_path ks body d = Inr r \<Longrightarrow>
     \<exists>sub'. body (dict_at ks d) = Inr sub' \<and> get_path ks (PDict r) = Some (PDict sub')"
proof (induction ks arbitrary: d r)
  case Nil
  then show ?case by (simp add: dict_at_def)
next
  case (Cons k ks)
  from Cons.prems have "setdefault_dict k (setdefault_path ks body) d = Inr r" by simp
  then obtain sub m where m: "setdefault_path ks body sub = Inr m"
    and r: "r = AList.update k (PDict m) d"
    and old: "(map_of d k = None \<and> sub = []) \<or> map_of d k = Some (PDict sub)"
    by (rule setdefault_dict_Inr)
  from Cons.IH [OF m] obtain sub' where b: "body (dict_at ks sub) = Inr sub'"
    and g: "get_path ks (PDict m) = Some (PDict sub')" by blast
  from old have "dict_at (k # ks) d = dict_at ks sub"
    by (auto simp: dict_at_empty dict_at_Cons_absent dict_at_Cons_dict)
  with b have "body (dict_at (k # ks) d) = Inr sub'" by simp
  moreover from g have "get_path (k # ks) (PDict r) = Some (PDict sub')"
    by (simp add: r map_of_update_same)
  ultimately show ?case by blast
qed

lemma dicts_along_dict: "dicts_along ks v \<Longrightarrow> \<exists>sub. v = PDict sub"
  by (cases ks; cases v) simp_all

lemma setdefault_path_idem:
  assumes f: "\<And>sub sub'. body sub = Inr sub' \<Longrightarrow> body sub' = Inr sub'"
  shows "setdefault_path ks body d = Inr r \<Longrightarrow> setdefault_path ks body r = Inr r"
proof (induction ks arbitrary: d r)
  case Nil
  then show ?case by (simp add: f)
next
  case (Cons k ks)
  from Cons.prems have "setdefault_dict k (setdefault_path ks body) d = Inr r" by simp
  then obtain sub m where m: "setdefault_path ks body sub = Inr m"
    and r: "r = AList.update k (PDict m) d"
    by (rule setdefault_dict_Inr)
  have "setdefault_path ks body m = Inr m" by (rule Cons.IH [OF m])
  then show ?case
    by (simp add: r setdefault_dict_def map_of_update_same)
qed

lemma setdefault_path_frame:
  assumes f: "\<And>sub sub' k. body sub = Inr sub' \<Longrightarrow> k \<noteq> kf \<Longrightarrow> map_of sub' k = map_of sub k"
  shows "setdefault_path ks body d = Inr r \<Longrightarrow> ks @ [kf] = p @ k' # rest \<Longrightarrow> k \<noteq> k' \<Longrightarrow>
     get_path (p @ [k]) (PDict r) = get_path (p @ [k]) (PDict d)"
proof (induction ks arbitrary: d r p)
  case Nil
  then have "p = []" "k' = kf" by (simp_all add: Cons_eq_append_conv append_eq_Cons_conv)
  with Nil f [of d r k] show ?case by simp
next
  case (Cons k0 ks)
  from Cons.prems(1) have "setdefault_dict k0 (setdefault_path ks body) d = Inr r" by simp
  then obtain sub m where m: "setdefault_path ks body sub = Inr m"
    and r: "r = AList.update k0 (PDict m) d"
    and old: "(map_of d k0 = None \<and> sub = []) \<or> map_of d k0 = Some (PDict sub)"
    by (rule setdefault_dict_Inr)
  show ?case
  proof (cases p)
    case Nil
    with Cons.prems(2) have "k' = k0" by simp
    with Cons.prems(3) Nil r show ?thesis by (simp add: map_of_update_other)
  next
    case (Cons q p')
    with Cons.prems(2) have q: "q = k0" and split: "ks @ [kf] = p' @ k' # rest" by simp_all
    have inner: "get_path (p' @ [k]) (PDict m) = get_path (p' @ [k]) (PDict sub)"
      by (rule Cons.IH [OF m split Cons.prems(3)])
    from old show ?thesis
    proof
      assume "map_of d k0 = None \<and> sub = []"
      with inner show ?thesis
        by (simp add: Cons q r map_of_update_same get_path_empty_dict)
    next
      assume "map_of d k0 = Some (PDict sub)"
      with inner show ?thesis
        by (simp add: Cons q r map_of_update_same)
    qed
  qed
qed

lemma map_of_delete_same: "map_of (AList.delete k al) k = None"
  by (simp add: AList.delete_conv')

lemma delete_absent: "map_of al k = None \<Longrightarrow> AList.delete k al = al"
  by (rule AList.delete_id) (simp add: map_of_eq_None_iff)

lemma keys_update_present: "map_of al k = Some w \<Longrightarrow> map fst (AList.update k v al) = map fst al"
  by (simp add: AList.update_keys map_of_eq_None_iff [symmetric])

section \<open>\<open>delete_archival\<close>: the archive keys are gone\<close>

lemma dicts_along_executor:
  "dicts_along [''executor''] (PDict suite) \<Longrightarrow>
     map_of suite ''executor'' = None \<or> (\<exists>ex. map_of suite ''executor'' = Some (PDict ex))"
  by (auto split: option.splits pyval.splits)

lemma delete_archival_no_executor:
  "map_of suite ''executor'' = None \<Longrightarrow> delete_archival suite = Inr (AList.delete ''archive'' suite)"
  by (simp add: delete_archival_def)

lemma delete_archival_executor:
  "map_of suite ''executor'' = Some (PDict ex) \<Longrightarrow>
     delete_archival suite =
       Inr (AList.update ''executor'' (PDict (AList.delete ''archive'' ex))
             (AList.delete ''archive'' suite))"
  by (simp add: delete_archival_def)

text \<open>
  Claim C3. On every document whose \<open>executor\<close>, when there is one, is a mapping,
  \<open>delete_archival\<close> returns, and the document it leaves has neither a top-level
  \<open>archive\<close> key nor an \<open>executor.archive\<close> key. Running it again on the result
  returns the result unchanged. Where \<open>executor.archive\<close> was already missing the
  \<open>executor\<close> entry is what it was, where \<open>archive\<close> was already missing the top-level
  keys are what they were, and where both were missing the document is unchanged.
\<close>

theorem delete_archival_removes:
  assumes "dicts_along [''executor''] (PDict suite)"
  shows "\<exists>suite'. delete_archival suite = Inr suite'
     \<and> get_path [''archive''] (PDict suite') = None
     \<and> get_path [''executor'', ''archive''] (PDict suite') = None
     \<and> delete_archival suite' = Inr suite'
     \<and> (get_path [''executor'', ''archive''] (PDict suite) = None \<longrightarrow>
          map_of suite' ''executor'' = map_of suite ''executor'')
     \<and> (get_path [''archive''] (PDict suite) = None \<longrightarrow> map fst suite' = map fst suite)
     \<and> (get_path [''archive''] (PDict suite) = None \<and>
        get_path [''executor'', ''archive''] (PDict suite) = None \<longrightarrow> suite' = suite)"
  using dicts_along_executor [OF assms]
proof
  assume none: "map_of suite ''executor'' = None"
  then show ?thesis
    by (simp add: delete_archival_no_executor map_of_delete_same AList.delete_idem delete_absent
             split: option.splits)
next
  assume "\<exists>ex. map_of suite ''executor'' = Some (PDict ex)"
  then obtain ex where ex: "map_of suite ''executor'' = Some (PDict ex)" ..
  let ?s1 = "AList.delete ''archive'' suite"
  let ?s' = "AList.update ''executor'' (PDict (AList.delete ''archive'' ex)) ?s1"
  have run: "delete_archival suite = Inr ?s'"
    by (rule delete_archival_executor [OF ex])
  have a1: "map_of ?s' ''archive'' = None"
    by (simp add: map_of_update_other map_of_delete_same)
  have a2: "map_of ?s' ''executor'' = Some (PDict (AList.delete ''archive'' ex))"
    by (simp add: map_of_update_same)
  have again: "delete_archival ?s' = Inr ?s'"
    by (simp add: delete_archival_executor [OF a2] delete_absent [OF a1] AList.delete_idem)
  have keep_ex: "map_of ex ''archive'' = None \<Longrightarrow> map_of ?s' ''executor'' = map_of suite ''executor''"
    by (simp add: ex delete_absent map_of_update_same)
  have keep_keys: "map_of suite ''archive'' = None \<Longrightarrow> map fst ?s' = map fst suite"
    by (simp add: delete_absent keys_update_present [OF ex])
  have same: "map_of suite ''archive'' = None \<Longrightarrow> map_of ex ''archive'' = None \<Longrightarrow> ?s' = suite"
    by (simp add: delete_absent AList.update_triv [OF ex])
  show ?thesis
    using run a1 a2 again keep_ex keep_keys same
    by (simp add: ex map_of_delete_same split: option.splits)
qed

theorem delete_archival_removes_witness:
  "dicts_along [''executor'']
     (PDict [(''archive'', PBool True),
             (''executor'', PDict [(''hooks'', PList [PStr ''CleanEveryN'']), (''archive'', PBool True)])])
   \<and> delete_archival
       [(''archive'', PBool True),
        (''executor'', PDict [(''hooks'', PList [PStr ''CleanEveryN'']), (''archive'', PBool True)])]
     = Inr [(''executor'', PDict [(''hooks'', PList [PStr ''CleanEveryN''])])]
   \<and> (\<exists>suite'. delete_archival
         [(''archive'', PBool True),
          (''executor'', PDict [(''hooks'', PList [PStr ''CleanEveryN'']), (''archive'', PBool True)])]
         = Inr suite'
       \<and> get_path [''archive''] (PDict suite') = None
       \<and> get_path [''executor'', ''archive''] (PDict suite') = None
       \<and> delete_archival suite' = Inr suite')"
  using delete_archival_removes
    [of "[(''archive'', PBool True),
          (''executor'', PDict [(''hooks'', PList [PStr ''CleanEveryN'']), (''archive'', PBool True)])]"]
  by (simp add: delete_archival_def)

section \<open>\<open>make_hooks_compatible\<close>: lists of one shape\<close>

lemma make_hooks_compatible_list:
  assumes "map_of suite ''executor'' = Some (PDict ex)"
    and "map_of ex ''hooks'' = Some (PList (h # hs))"
  shows "make_hooks_compatible suite =
     (case new_hooks h (h # hs) of
        Inl e \<Rightarrow> Inl (e, suite)
      | Inr hooks' \<Rightarrow>
          Inr (AList.update ''executor'' (PDict (AList.update ''hooks'' hooks' ex)) suite))"
  using assms by (simp add: make_hooks_compatible_def hooks_rewrite_def)

lemma str_hooks_names:
  "str_hooks (map PStr names) = map PStr (filter (\<lambda>n. n \<notin> set INCOMPATIBLE_HOOKS) names)"
  by (induction names) (auto simp: str_hooks_def not_incompatible_def)

lemma not_incompatible_iff:
  "not_incompatible c \<longleftrightarrow> (\<forall>n \<in> set INCOMPATIBLE_HOOKS. c \<noteq> PStr n)"
  by (auto simp: not_incompatible_def)

lemma dict_hooks_classes:
  "\<forall>d \<in> set ds. \<exists>c. map_of d ''class'' = Some c \<Longrightarrow>
     dict_hooks (map PDict ds) =
       Inr (map PDict (filter (\<lambda>d. \<forall>n \<in> set INCOMPATIBLE_HOOKS. map_of d ''class'' \<noteq> Some (PStr n)) ds))"
proof (induction ds)
  case Nil
  then show ?case by simp
next
  case (Cons d ds)
  then obtain c where c: "map_of d ''class'' = Some c" by auto
  from Cons have rest: "dict_hooks (map PDict ds) =
      Inr (map PDict (filter (\<lambda>d. \<forall>n \<in> set INCOMPATIBLE_HOOKS. map_of d ''class'' \<noteq> Some (PStr n)) ds))"
    by simp
  show ?case
    by (simp add: c rest not_incompatible_iff)
qed

text \<open>
  Claim C2. Let \<open>executor.hooks\<close> be a non-empty list. If its elements are all plain
  strings, \<open>make_hooks_compatible\<close> replaces it by the string \<open>AntithesisLogging\<close>
  followed by the strings of the list that are not in \<open>INCOMPATIBLE_HOOKS\<close>, in their
  order. If its elements are all mappings with a \<open>class\<close> field, it replaces it by the
  mapping \<open>{class: AntithesisLogging}\<close> followed by the mappings of the list whose
  \<open>class\<close> is none of the names in \<open>INCOMPATIBLE_HOOKS\<close>, in their order. Nothing else
  in the document changes. The witness is the two lists of the specification:
  \<open>[CleanEveryN, X, ContinuousStepdown]\<close> becomes \<open>[AntithesisLogging, X]\<close>.
\<close>

theorem make_hooks_compatible_uniform:
  assumes "map_of suite ''executor'' = Some (PDict ex)"
    and "map_of ex ''hooks'' = Some (PList hooks)"
    and "hooks \<noteq> []"
  shows "(\<forall>names. hooks = map PStr names \<longrightarrow>
            make_hooks_compatible suite =
              Inr (AList.update ''executor''
                    (PDict (AList.update ''hooks''
                      (PList (PStr ''AntithesisLogging'' #
                              map PStr (filter (\<lambda>n. n \<notin> set INCOMPATIBLE_HOOKS) names))) ex))
                    suite))
       \<and> (\<forall>ds. hooks = map PDict ds \<and> (\<forall>d \<in> set ds. \<exists>c. map_of d ''class'' = Some c) \<longrightarrow>
            make_hooks_compatible suite =
              Inr (AList.update ''executor''
                    (PDict (AList.update ''hooks''
                      (PList (PDict [(''class'', PStr ''AntithesisLogging'')] #
                              map PDict (filter (\<lambda>d. \<forall>n \<in> set INCOMPATIBLE_HOOKS.
                                                    map_of d ''class'' \<noteq> Some (PStr n)) ds))) ex))
                    suite))"
proof (intro conjI allI impI)
  fix names
  assume h: "hooks = map PStr names"
  with assms(3) obtain n ns where ns: "names = n # ns" by (cases names) auto
  have "map_of ex ''hooks'' = Some (PList (PStr n # map PStr ns))"
    using assms(2) h ns by simp
  from make_hooks_compatible_list [OF assms(1) this]
  show "make_hooks_compatible suite =
      Inr (AList.update ''executor''
            (PDict (AList.update ''hooks''
              (PList (PStr ''AntithesisLogging'' #
                      map PStr (filter (\<lambda>n. n \<notin> set INCOMPATIBLE_HOOKS) names))) ex))
            suite)"
    using str_hooks_names [of names] by (simp add: new_hooks_def ns)
next
  fix ds
  assume a: "hooks = map PDict ds \<and> (\<forall>d \<in> set ds. \<exists>c. map_of d ''class'' = Some c)"
  with assms(3) obtain d ds' where ds: "ds = d # ds'" by (cases ds) auto
  have "map_of ex ''hooks'' = Some (PList (PDict d # map PDict ds'))"
    using assms(2) a ds by simp
  from make_hooks_compatible_list [OF assms(1) this]
  show "make_hooks_compatible suite =
      Inr (AList.update ''executor''
            (PDict (AList.update ''hooks''
              (PList (PDict [(''class'', PStr ''AntithesisLogging'')] #
                      map PDict (filter (\<lambda>d. \<forall>n \<in> set INCOMPATIBLE_HOOKS.
                                            map_of d ''class'' \<noteq> Some (PStr n)) ds))) ex))
            suite)"
    using dict_hooks_classes [of ds] a by (simp add: new_hooks_def ds)
qed

theorem make_hooks_compatible_uniform_witness:
  "make_hooks_compatible
     [(''executor'', PDict [(''hooks'', PList [PStr ''CleanEveryN'', PStr ''X'', PStr ''ContinuousStepdown''])])]
   = Inr [(''executor'', PDict [(''hooks'', PList [PStr ''AntithesisLogging'', PStr ''X''])])]
   \<and> make_hooks_compatible
     [(''executor'', PDict [(''hooks'', PList [PDict [(''class'', PStr ''CheckOrphansDeleted'')],
                                              PDict [(''class'', PStr ''Y'')]])])]
   = Inr [(''executor'', PDict [(''hooks'', PList [PDict [(''class'', PStr ''AntithesisLogging'')],
                                                  PDict [(''class'', PStr ''Y'')]])])]"
proof
  let ?names = "[''CleanEveryN'', ''X'', ''ContinuousStepdown'']"
  let ?ex = "[(''hooks'', PList (map PStr ?names))]"
  let ?suite = "[(''executor'', PDict ?ex)]"
  have ex: "map_of ?suite ''executor'' = Some (PDict ?ex)" by simp
  have hk: "map_of ?ex ''hooks'' = Some (PList (map PStr ?names))" by simp
  have ne: "map PStr ?names \<noteq> []" by simp
  have keep: "filter (\<lambda>n. n \<notin> set INCOMPATIBLE_HOOKS) ?names = [''X'']"
    by (simp add: INCOMPATIBLE_HOOKS_def)
  from make_hooks_compatible_uniform [OF ex hk ne]
  have "make_hooks_compatible ?suite =
      Inr (AList.update ''executor''
            (PDict (AList.update ''hooks''
              (PList (PStr ''AntithesisLogging'' #
                      map PStr (filter (\<lambda>n. n \<notin> set INCOMPATIBLE_HOOKS) ?names))) ?ex))
            ?suite)"
    by blast
  then show "make_hooks_compatible
     [(''executor'', PDict [(''hooks'', PList [PStr ''CleanEveryN'', PStr ''X'', PStr ''ContinuousStepdown''])])]
   = Inr [(''executor'', PDict [(''hooks'', PList [PStr ''AntithesisLogging'', PStr ''X''])])]"
    unfolding keep by simp
next
  let ?ds = "[[(''class'', PStr ''CheckOrphansDeleted'')], [(''class'', PStr ''Y'')]]"
  let ?ex = "[(''hooks'', PList (map PDict ?ds))]"
  let ?suite = "[(''executor'', PDict ?ex)]"
  have ex: "map_of ?suite ''executor'' = Some (PDict ?ex)" by simp
  have hk: "map_of ?ex ''hooks'' = Some (PList (map PDict ?ds))" by simp
  have ne: "map PDict ?ds \<noteq> []" by simp
  have cls: "\<forall>d \<in> set ?ds. \<exists>c. map_of d ''class'' = Some c" by simp
  have keep: "filter (\<lambda>d. \<forall>n \<in> set INCOMPATIBLE_HOOKS. map_of d ''class'' \<noteq> Some (PStr n)) ?ds
      = [[(''class'', PStr ''Y'')]]"
    by (simp add: INCOMPATIBLE_HOOKS_def)
  from make_hooks_compatible_uniform [OF ex hk ne] cls
  have "make_hooks_compatible ?suite =
      Inr (AList.update ''executor''
            (PDict (AList.update ''hooks''
              (PList (PDict [(''class'', PStr ''AntithesisLogging'')] #
                      map PDict (filter (\<lambda>d. \<forall>n \<in> set INCOMPATIBLE_HOOKS.
                                            map_of d ''class'' \<noteq> Some (PStr n)) ?ds))) ?ex))
            ?suite)"
    by blast
  then show "make_hooks_compatible
     [(''executor'', PDict [(''hooks'', PList [PDict [(''class'', PStr ''CheckOrphansDeleted'')],
                                              PDict [(''class'', PStr ''Y'')]])])]
   = Inr [(''executor'', PDict [(''hooks'', PList [PDict [(''class'', PStr ''AntithesisLogging'')],
                                                  PDict [(''class'', PStr ''Y'')]])])]"
    unfolding keep by simp
qed

section \<open>\<open>make_hooks_compatible\<close>: no hooks, and hooks of an unknown shape\<close>

lemma dict_hooks_error: "dict_hooks hooks = Inl e \<Longrightarrow> e = KeyError \<or> e = TypeError"
  by (induction hooks) (auto split: pyval.splits option.splits sum.splits)

lemma new_hooks_RuntimeError:
  "new_hooks first hooks = Inl (RuntimeError h) \<Longrightarrow>
     first = h \<and> (\<forall>s. h \<noteq> PStr s) \<and> (\<forall>d. h \<noteq> PDict d)"
  by (cases first) (auto simp: new_hooks_def split: sum.splits dest: dict_hooks_error)

lemma hooks_rewrite_RuntimeError:
  "hooks_rewrite hooks = Inl (RuntimeError h) \<Longrightarrow>
     \<exists>hs. hooks = PList (h # hs) \<and> (\<forall>s. h \<noteq> PStr s) \<and> (\<forall>d. h \<noteq> PDict d)"
proof (cases hooks)
  case (PList xs)
  assume r: "hooks_rewrite hooks = Inl (RuntimeError h)"
  with PList obtain x xs' where xs: "xs = x # xs'"
    by (cases xs) (simp_all add: hooks_rewrite_def)
  with r PList have "new_hooks x (x # xs') = Inl (RuntimeError h)"
    by (simp add: hooks_rewrite_def)
  from new_hooks_RuntimeError [OF this] PList xs show ?thesis by simp
next
  case (PStr s)
  assume "hooks_rewrite hooks = Inl (RuntimeError h)"
  with PStr show ?thesis
    by (cases s) (simp_all add: hooks_rewrite_def new_hooks_def)
qed (simp_all add: hooks_rewrite_def)

lemma make_hooks_compatible_RuntimeError:
  assumes "make_hooks_compatible suite = Inl (RuntimeError h, st)"
  shows "\<exists>ex hs. map_of suite ''executor'' = Some (PDict ex)
     \<and> map_of ex ''hooks'' = Some (PList (h # hs))
     \<and> (\<forall>s. h \<noteq> PStr s) \<and> (\<forall>d. h \<noteq> PDict d)"
proof -
  from assms obtain ex where ex: "map_of suite ''executor'' = Some (PDict ex)"
    by (auto simp: make_hooks_compatible_def split: option.splits pyval.splits)
  with assms obtain hooks where hk: "map_of ex ''hooks'' = Some hooks"
    and rw: "hooks_rewrite hooks = Inl (RuntimeError h)"
    by (auto simp: make_hooks_compatible_def split: option.splits if_splits sum.splits)
  from hooks_rewrite_RuntimeError [OF rw] ex hk show ?thesis by auto
qed

lemma hooks_unknown_first:
  assumes "map_of suite ''executor'' = Some (PDict ex)"
    and "map_of ex ''hooks'' = Some (PList (h # hs))"
    and "\<forall>s. h \<noteq> PStr s" and "\<forall>d. h \<noteq> PDict d"
  shows "make_hooks_compatible suite = Inl (RuntimeError h, suite)"
proof -
  have "new_hooks h (h # hs) = Inl (RuntimeError h)"
    using assms(3,4) by (cases h) (simp_all add: new_hooks_def)
  with make_hooks_compatible_list [OF assms(1,2)] show ?thesis by simp
qed

lemma make_external_stops_at_hooks:
  "delete_archival suite = Inr suite1 \<Longrightarrow> make_hooks_compatible suite1 = Inl x \<Longrightarrow>
     make_external suite = Inl x"
  by (simp add: make_external_def and_then_def)

lemma make_external_unknown_first:
  assumes "map_of suite ''executor'' = Some (PDict ex)"
    and "map_of ex ''hooks'' = Some (PList (h # hs))"
    and "\<forall>s. h \<noteq> PStr s" and "\<forall>d. h \<noteq> PDict d"
  defines "suite1 \<equiv> AList.update ''executor'' (PDict (AList.delete ''archive'' ex))
                     (AList.delete ''archive'' suite)"
  shows "delete_archival suite = Inr suite1"
    and "make_hooks_compatible suite1 = Inl (RuntimeError h, suite1)"
    and "make_external suite = Inl (RuntimeError h, suite1)"
proof -
  show del: "delete_archival suite = Inr suite1"
    unfolding suite1_def by (rule delete_archival_executor [OF assms(1)])
  have ex1: "map_of suite1 ''executor'' = Some (PDict (AList.delete ''archive'' ex))"
    by (simp add: suite1_def map_of_update_same)
  have hk1: "map_of (AList.delete ''archive'' ex) ''hooks'' = Some (PList (h # hs))"
    using assms(2) by simp
  show hooks: "make_hooks_compatible suite1 = Inl (RuntimeError h, suite1)"
    by (rule hooks_unknown_first [OF ex1 hk1 assms(3,4)])
  show "make_external suite = Inl (RuntimeError h, suite1)"
    by (rule make_external_stops_at_hooks [OF del hooks])
qed

text \<open>
  Claim C8. On every document whose \<open>executor\<close>, when there is one, is a mapping, and in
  which \<open>executor.hooks\<close> is missing or is the empty list, \<open>make_hooks_compatible\<close>
  returns the document as it was: no \<open>executor\<close> or \<open>hooks\<close> entry is made, and nothing
  is raised.
\<close>

theorem make_hooks_compatible_no_hooks:
  assumes "dicts_along [''executor''] (PDict suite)"
    and "get_path [''executor'', ''hooks''] (PDict suite) = None
       \<or> get_path [''executor'', ''hooks''] (PDict suite) = Some (PList [])"
  shows "make_hooks_compatible suite = Inr suite"
  using dicts_along_executor [OF assms(1)]
proof
  assume "map_of suite ''executor'' = None"
  then show ?thesis by (simp add: make_hooks_compatible_def)
next
  assume "\<exists>ex. map_of suite ''executor'' = Some (PDict ex)"
  then obtain ex where ex: "map_of suite ''executor'' = Some (PDict ex)" ..
  with assms(2) have "map_of ex ''hooks'' = None \<or> map_of ex ''hooks'' = Some (PList [])"
    by (simp split: option.splits)
  then show ?thesis
    by (auto simp: make_hooks_compatible_def ex)
qed

theorem make_hooks_compatible_no_hooks_witness:
  "dicts_along [''executor''] (PDict [(''executor'', PDict [(''hooks'', PList [])])])
   \<and> get_path [''executor'', ''hooks''] (PDict [(''executor'', PDict [(''hooks'', PList [])])])
       = Some (PList [])
   \<and> make_hooks_compatible [(''executor'', PDict [(''hooks'', PList [])])]
       = Inr [(''executor'', PDict [(''hooks'', PList [])])]
   \<and> make_hooks_compatible [(''selector'', PDict [])] = Inr [(''selector'', PDict [])]"
  using make_hooks_compatible_no_hooks [of "[(''executor'', PDict [(''hooks'', PList [])])]"]
    make_hooks_compatible_no_hooks [of "[(''selector'', PDict [])]"]
  by simp

text \<open>
  Claim C1, as stated, fails: the list \<open>["X", {"class": "Y"}]\<close> mixes a string and a
  mapping, its first element is a string, and \<open>make_hooks_compatible\<close> raises nothing;
  \<open>make_external\<close> then runs all its steps.
\<close>

theorem make_hooks_compatible_mixed_counterexample:
  "make_hooks_compatible
     [(''executor'', PDict [(''hooks'', PList [PStr ''X'', PDict [(''class'', PStr ''Y'')]])])]
   = Inr [(''executor'',
           PDict [(''hooks'', PList [PStr ''AntithesisLogging'', PStr ''X'',
                                    PDict [(''class'', PStr ''Y'')]])])]
   \<and> make_external
     [(''executor'', PDict [(''hooks'', PList [PStr ''X'', PDict [(''class'', PStr ''Y'')]])])]
   = Inr [(''executor'',
           PDict [(''hooks'', PList [PStr ''AntithesisLogging'', PStr ''X'',
                                    PDict [(''class'', PStr ''Y'')]]),
                  (''config'', PDict [(''shell_options'',
                     PDict [(''global_vars'', PDict [(''TestData'',
                              PDict [(''useActionPermittedFile'', PBool False)])]),
                            (''eval'', PStr ''jsTestLog = Function.prototype;'')])])]),
          (''selector'', PDict [(''exclude_with_any_tags'', PList [PStr ''antithesis_incompatible''])])]"
  by (simp add: make_external_def and_then_def delete_archival_def make_hooks_compatible_def
        hooks_rewrite_def new_hooks_def str_hooks_def not_incompatible_def INCOMPATIBLE_HOOKS_def
        update_test_data_def update_shell_def update_exclude_tags_def setdefault_dict_def
        eval_append_def exclude_tags_def jsTestLog_noop_def)

lemma dict_hooks_not_all:
  "\<not> (\<forall>x \<in> set hooks. \<exists>d c. x = PDict d \<and> map_of d ''class'' = Some c) \<Longrightarrow>
     dict_hooks hooks = Inl KeyError \<or> dict_hooks hooks = Inl TypeError"
proof (induction hooks)
  case Nil
  then show ?case by simp
next
  case (Cons x xs)
  show ?case
  proof (cases "\<exists>d c. x = PDict d \<and> map_of d ''class'' = Some c")
    case True
    then obtain d c where x: "x = PDict d" and c: "map_of d ''class'' = Some c" by blast
    from Cons.prems x c
    have "\<not> (\<forall>y \<in> set xs. \<exists>d c. y = PDict d \<and> map_of d ''class'' = Some c)" by simp
    from Cons.IH [OF this] show ?thesis by (auto simp: x c)
  next
    case False
    then show ?thesis by (cases x) (auto split: option.splits)
  qed
qed

lemma make_external_hooks_raise:
  assumes "map_of suite ''executor'' = Some (PDict ex)"
    and "map_of ex ''hooks'' = Some (PList (h # hs))"
    and "new_hooks h (h # hs) = Inl e"
  defines "suite1 \<equiv> AList.update ''executor'' (PDict (AList.delete ''archive'' ex))
                     (AList.delete ''archive'' suite)"
  shows "make_hooks_compatible suite = Inl (e, suite)"
    and "delete_archival suite = Inr suite1"
    and "make_external suite = Inl (e, suite1)"
proof -
  show "make_hooks_compatible suite = Inl (e, suite)"
    using make_hooks_compatible_list [OF assms(1,2)] assms(3) by simp
  show del: "delete_archival suite = Inr suite1"
    unfolding suite1_def by (rule delete_archival_executor [OF assms(1)])
  have ex1: "map_of suite1 ''executor'' = Some (PDict (AList.delete ''archive'' ex))"
    by (simp add: suite1_def map_of_update_same)
  have hk1: "map_of (AList.delete ''archive'' ex) ''hooks'' = Some (PList (h # hs))"
    using assms(2) by simp
  have "make_hooks_compatible suite1 = Inl (e, suite1)"
    using make_hooks_compatible_list [OF ex1 hk1] assms(3) by simp
  with del show "make_external suite = Inl (e, suite1)"
    by (rule make_external_stops_at_hooks)
qed

text \<open>
  Claim C1, amended. Let \<open>executor.hooks\<close> be a non-empty list whose elements are
  neither all plain strings nor all mappings with a \<open>class\<close> field. The first element
  alone decides what happens. If it is not a string, \<open>make_hooks_compatible\<close> raises and
  leaves the document as it was, and \<open>make_external\<close> raises the same exception with the
  document as \<open>delete_archival\<close> left it, so that \<open>update_test_data\<close>, \<open>update_shell\<close>
  and \<open>update_exclude_tags\<close> are not run; the exception is the unsupported-shape error
  naming the first element when that element is not a mapping either, and a \<open>KeyError\<close>
  or \<open>TypeError\<close> from \<open>hook["class"]\<close> when it is a mapping. If the first element is
  a string, nothing is raised whatever follows: the list is replaced by
  \<open>AntithesisLogging\<close> followed by its elements that are equal to none of the names in
  \<open>INCOMPATIBLE_HOOKS\<close>, in their order.
\<close>

theorem make_hooks_compatible_mixed:
  assumes "map_of suite ''executor'' = Some (PDict ex)"
    and "map_of ex ''hooks'' = Some (PList (h # hs))"
    and "\<not> (\<forall>x \<in> set (h # hs). \<exists>s. x = PStr s)"
    and "\<not> (\<forall>x \<in> set (h # hs). \<exists>d c. x = PDict d \<and> map_of d ''class'' = Some c)"
  shows "((\<forall>s. h \<noteq> PStr s) \<longrightarrow>
            (\<exists>e suite1. make_hooks_compatible suite = Inl (e, suite)
               \<and> delete_archival suite = Inr suite1
               \<and> make_external suite = Inl (e, suite1)
               \<and> (if \<exists>d. h = PDict d then e = KeyError \<or> e = TypeError
                   else e = RuntimeError h)))
     \<and> ((\<exists>s. h = PStr s) \<longrightarrow>
            make_hooks_compatible suite =
              Inr (AList.update ''executor''
                    (PDict (AList.update ''hooks''
                      (PList (PStr ''AntithesisLogging'' #
                              filter (\<lambda>x. x \<notin> set (map PStr INCOMPATIBLE_HOOKS)) (h # hs))) ex))
                    suite))"
proof (intro conjI impI)
  assume nostr: "\<forall>s. h \<noteq> PStr s"
  have "\<exists>e. new_hooks h (h # hs) = Inl e
      \<and> (if \<exists>d. h = PDict d then e = KeyError \<or> e = TypeError else e = RuntimeError h)"
  proof (cases "\<exists>d. h = PDict d")
    case True
    then obtain d where h: "h = PDict d" ..
    from dict_hooks_not_all [OF assms(4)]
    have "dict_hooks (h # hs) = Inl KeyError \<or> dict_hooks (h # hs) = Inl TypeError" .
    then have "new_hooks h (h # hs) = Inl KeyError \<or> new_hooks h (h # hs) = Inl TypeError"
      unfolding new_hooks_def h by auto
    with True show ?thesis by auto
  next
    case False
    with nostr have "new_hooks h (h # hs) = Inl (RuntimeError h)"
      by (cases h) (simp_all add: new_hooks_def)
    with False show ?thesis by simp
  qed
  then obtain e where raised: "new_hooks h (h # hs) = Inl e"
    and which: "if \<exists>d. h = PDict d then e = KeyError \<or> e = TypeError else e = RuntimeError h"
    by blast
  from make_external_hooks_raise [OF assms(1,2) raised] which
  show "\<exists>e suite1. make_hooks_compatible suite = Inl (e, suite)
               \<and> delete_archival suite = Inr suite1
               \<and> make_external suite = Inl (e, suite1)
               \<and> (if \<exists>d. h = PDict d then e = KeyError \<or> e = TypeError
                   else e = RuntimeError h)"
    by blast
next
  assume "\<exists>s. h = PStr s"
  then obtain s where h: "h = PStr s" ..
  have "new_hooks h (h # hs) =
      Inr (PList (PStr ''AntithesisLogging'' #
                  filter (\<lambda>x. x \<notin> set (map PStr INCOMPATIBLE_HOOKS)) (h # hs)))"
    unfolding new_hooks_def str_hooks_def h
    by (simp add: not_incompatible_def [abs_def])
  with make_hooks_compatible_list [OF assms(1,2)]
  show "make_hooks_compatible suite =
      Inr (AList.update ''executor''
            (PDict (AList.update ''hooks''
              (PList (PStr ''AntithesisLogging'' #
                      filter (\<lambda>x. x \<notin> set (map PStr INCOMPATIBLE_HOOKS)) (h # hs))) ex))
            suite)"
    by simp
qed

theorem make_hooks_compatible_mixed_witness:
  "(\<exists>e suite1.
      make_hooks_compatible
        [(''executor'', PDict [(''hooks'', PList [PDict [(''class'', PStr ''Y'')], PStr ''X''])])]
      = Inl (e, [(''executor'', PDict [(''hooks'', PList [PDict [(''class'', PStr ''Y'')], PStr ''X''])])])
      \<and> delete_archival
        [(''executor'', PDict [(''hooks'', PList [PDict [(''class'', PStr ''Y'')], PStr ''X''])])]
      = Inr suite1
      \<and> make_external
        [(''executor'', PDict [(''hooks'', PList [PDict [(''class'', PStr ''Y'')], PStr ''X''])])]
      = Inl (e, suite1)
      \<and> (e = KeyError \<or> e = TypeError))
   \<and> (\<exists>e suite1.
      make_hooks_compatible [(''executor'', PDict [(''hooks'', PList [PInt 3, PStr ''X''])])]
      = Inl (e, [(''executor'', PDict [(''hooks'', PList [PInt 3, PStr ''X''])])])
      \<and> delete_archival [(''executor'', PDict [(''hooks'', PList [PInt 3, PStr ''X''])])]
      = Inr suite1
      \<and> make_external [(''executor'', PDict [(''hooks'', PList [PInt 3, PStr ''X''])])]
      = Inl (e, suite1)
      \<and> e = RuntimeError (PInt 3))
   \<and> make_hooks_compatible [(''executor'', PDict [(''hooks'', PList [PStr ''X'', PInt 3])])]
      = Inr [(''executor'', PDict [(''hooks'', PList [PStr ''AntithesisLogging'', PStr ''X'', PInt 3])])]"
proof (intro conjI)
  let ?hd = "PDict [(''class'', PStr ''Y'')]"
  let ?ex = "[(''hooks'', PList (?hd # [PStr ''X'']))]"
  have ex: "map_of [(''executor'', PDict ?ex)] ''executor'' = Some (PDict ?ex)" by simp
  have hk: "map_of ?ex ''hooks'' = Some (PList (?hd # [PStr ''X'']))" by simp
  have a: "\<not> (\<forall>x \<in> set (?hd # [PStr ''X'']). \<exists>s. x = PStr s)" by simp
  have b: "\<not> (\<forall>x \<in> set (?hd # [PStr ''X'']). \<exists>d c. x = PDict d \<and> map_of d ''class'' = Some c)"
    by simp
  have nostr: "\<forall>s. ?hd \<noteq> PStr s" by simp
  from make_hooks_compatible_mixed [OF ex hk a b, THEN conjunct1, THEN mp, OF nostr]
  show "\<exists>e suite1.
      make_hooks_compatible
        [(''executor'', PDict [(''hooks'', PList [PDict [(''class'', PStr ''Y'')], PStr ''X''])])]
      = Inl (e, [(''executor'', PDict [(''hooks'', PList [PDict [(''class'', PStr ''Y'')], PStr ''X''])])])
      \<and> delete_archival
        [(''executor'', PDict [(''hooks'', PList [PDict [(''class'', PStr ''Y'')], PStr ''X''])])]
      = Inr suite1
      \<and> make_external
        [(''executor'', PDict [(''hooks'', PList [PDict [(''class'', PStr ''Y'')], PStr ''X''])])]
      = Inl (e, suite1)
      \<and> (e = KeyError \<or> e = TypeError)"
    by simp
next
  let ?ex = "[(''hooks'', PList (PInt 3 # [PStr ''X'']))]"
  have ex: "map_of [(''executor'', PDict ?ex)] ''executor'' = Some (PDict ?ex)" by simp
  have hk: "map_of ?ex ''hooks'' = Some (PList (PInt 3 # [PStr ''X'']))" by simp
  have a: "\<not> (\<forall>x \<in> set (PInt 3 # [PStr ''X'']). \<exists>s. x = PStr s)" by simp
  have b: "\<not> (\<forall>x \<in> set (PInt 3 # [PStr ''X'']). \<exists>d c. x = PDict d \<and> map_of d ''class'' = Some c)"
    by simp
  have nostr: "\<forall>s. PInt 3 \<noteq> PStr s" by simp
  from make_hooks_compatible_mixed [OF ex hk a b, THEN conjunct1, THEN mp, OF nostr]
  show "\<exists>e suite1.
      make_hooks_compatible [(''executor'', PDict [(''hooks'', PList [PInt 3, PStr ''X''])])]
      = Inl (e, [(''executor'', PDict [(''hooks'', PList [PInt 3, PStr ''X''])])])
      \<and> delete_archival [(''executor'', PDict [(''hooks'', PList [PInt 3, PStr ''X''])])]
      = Inr suite1
      \<and> make_external [(''executor'', PDict [(''hooks'', PList [PInt 3, PStr ''X''])])]
      = Inl (e, suite1)
      \<and> e = RuntimeError (PInt 3)"
    by simp
next
  let ?ex = "[(''hooks'', PList (PStr ''X'' # [PInt 3]))]"
  have ex: "map_of [(''executor'', PDict ?ex)] ''executor'' = Some (PDict ?ex)" by simp
  have hk: "map_of ?ex ''hooks'' = Some (PList (PStr ''X'' # [PInt 3]))" by simp
  have a: "\<not> (\<forall>x \<in> set (PStr ''X'' # [PInt 3]). \<exists>s. x = PStr s)" by simp
  have b: "\<not> (\<forall>x \<in> set (PStr ''X'' # [PInt 3]). \<exists>d c. x = PDict d \<and> map_of d ''class'' = Some c)"
    by simp
  have str: "\<exists>s. PStr ''X'' = PStr s" by simp
  have keep: "filter (\<lambda>x. x \<notin> set (map PStr INCOMPATIBLE_HOOKS)) (PStr ''X'' # [PInt 3])
      = [PStr ''X'', PInt 3]"
    by (simp add: INCOMPATIBLE_HOOKS_def)
  from make_hooks_compatible_mixed [OF ex hk a b, THEN conjunct2, THEN mp, OF str]
  show "make_hooks_compatible [(''executor'', PDict [(''hooks'', PList [PStr ''X'', PInt 3])])]
      = Inr [(''executor'', PDict [(''hooks'', PList [PStr ''AntithesisLogging'', PStr ''X'', PInt 3])])]"
    unfolding keep by simp
qed

section \<open>\<open>make_hooks_compatible\<close> and \<open>make_external\<close>: what an exception leaves\<close>

lemma dict_hooks_missing_class:
  "map_of d ''class'' = None \<Longrightarrow>
     dict_hooks (pre @ PDict d # post) = Inl KeyError
   \<or> dict_hooks (pre @ PDict d # post) = Inl TypeError"
proof (induction pre)
  case Nil
  then show ?case by simp
next
  case (Cons x pre)
  then show ?case
    by (cases x) (auto split: option.splits)
qed

lemma dict_hooks_KeyError:
  "map_of d ''class'' = None \<Longrightarrow> \<forall>x \<in> set pre. \<exists>d'. x = PDict d' \<Longrightarrow>
     dict_hooks (pre @ PDict d # post) = Inl KeyError"
proof (induction pre)
  case Nil
  then show ?case by simp
next
  case (Cons x pre)
  then obtain d' where x: "x = PDict d'" by auto
  from Cons have "dict_hooks (pre @ PDict d # post) = Inl KeyError" by simp
  then show ?case by (simp add: x split: option.splits)
qed

text \<open>
  Claim C10, as stated, fails: in \<open>[{"class": "A"}, "X", {}]\<close> the first element is a
  mapping and the third is a mapping without \<open>class\<close>, but the comprehension reaches the
  string \<open>"X"\<close> first, and \<open>"X"["class"]\<close> raises \<open>TypeError\<close>, not a key-lookup error.
\<close>

theorem make_hooks_compatible_missing_class_counterexample:
  "make_hooks_compatible
     [(''executor'', PDict [(''hooks'', PList [PDict [(''class'', PStr ''A'')], PStr ''X'', PDict []])])]
   = Inl (TypeError,
       [(''executor'', PDict [(''hooks'', PList [PDict [(''class'', PStr ''A'')], PStr ''X'', PDict []])])])"
  by (simp add: make_hooks_compatible_def hooks_rewrite_def new_hooks_def
        not_incompatible_def INCOMPATIBLE_HOOKS_def)

lemma dict_hooks_first_TypeError:
  "\<forall>x \<in> set good. \<exists>d c. x = PDict d \<and> map_of d ''class'' = Some c \<Longrightarrow>
   \<forall>d. b \<noteq> PDict d \<Longrightarrow>
     dict_hooks (good @ b # post) = Inl TypeError"
proof (induction good)
  case Nil
  then show ?case by (cases b) simp_all
next
  case (Cons x good)
  then obtain d c where x: "x = PDict d" and c: "map_of d ''class'' = Some c" by auto
  from Cons have "dict_hooks (good @ b # post) = Inl TypeError" by simp
  then show ?case by (simp add: x c)
qed

text \<open>
  Claim C10, amended. For every \<open>executor.hooks\<close> list whose first element is a mapping
  and in which a later element is a mapping without the \<open>class\<close> key,
  \<open>make_hooks_compatible\<close> raises from the expression \<open>hook["class"]\<close> and leaves the
  document as it was; the exception is \<open>KeyError\<close> or \<open>TypeError\<close>, never the
  unsupported-shape \<open>RuntimeError\<close>. It is the key-lookup error \<open>KeyError\<close> when every
  element before that one is a mapping. In general the first element from the left that
  is not a mapping with a \<open>class\<close> field decides: the exception is \<open>TypeError\<close> when
  that element is not a mapping (a non-mapping element is reached first), and
  \<open>KeyError\<close> when it is a mapping without \<open>class\<close>.
\<close>

theorem make_hooks_compatible_missing_class:
  assumes "map_of suite ''executor'' = Some (PDict ex)"
    and "map_of ex ''hooks'' = Some (PList (PDict d0 # pre @ PDict d # post))"
    and "map_of d ''class'' = None"
  shows "(make_hooks_compatible suite = Inl (KeyError, suite)
          \<or> make_hooks_compatible suite = Inl (TypeError, suite))
     \<and> (\<forall>h st. make_hooks_compatible suite \<noteq> Inl (RuntimeError h, st))
     \<and> ((\<forall>x \<in> set pre. \<exists>d'. x = PDict d') \<longrightarrow>
          make_hooks_compatible suite = Inl (KeyError, suite))
     \<and> (\<forall>good b rest.
          PDict d0 # pre @ PDict d # post = good @ b # rest
          \<and> (\<forall>x \<in> set good. \<exists>d' c. x = PDict d' \<and> map_of d' ''class'' = Some c)
          \<and> (\<forall>d'. b \<noteq> PDict d') \<longrightarrow>
          make_hooks_compatible suite = Inl (TypeError, suite))
     \<and> (\<forall>good d' rest.
          PDict d0 # pre @ PDict d # post = good @ PDict d' # rest
          \<and> (\<forall>x \<in> set good. \<exists>d'' c. x = PDict d'' \<and> map_of d'' ''class'' = Some c)
          \<and> map_of d' ''class'' = None \<longrightarrow>
          make_hooks_compatible suite = Inl (KeyError, suite))"
proof -
  let ?hooks = "PDict d0 # pre @ PDict d # post"
  have run: "make_hooks_compatible suite =
      (case dict_hooks ?hooks of
         Inl e \<Rightarrow> Inl (e, suite)
       | Inr rest \<Rightarrow>
           Inr (AList.update ''executor''
                 (PDict (AList.update ''hooks''
                   (PList (PDict [(''class'', PStr ''AntithesisLogging'')] # rest)) ex)) suite))"
    using make_hooks_compatible_list [OF assms(1,2)]
    by (simp add: new_hooks_def split: sum.splits)
  have "dict_hooks ((PDict d0 # pre) @ PDict d # post) = Inl KeyError
      \<or> dict_hooks ((PDict d0 # pre) @ PDict d # post) = Inl TypeError"
    by (rule dict_hooks_missing_class [OF assms(3)])
  then have either: "dict_hooks ?hooks = Inl KeyError \<or> dict_hooks ?hooks = Inl TypeError"
    by simp
  have key: "dict_hooks ?hooks = Inl KeyError" if "\<forall>x \<in> set pre. \<exists>d'. x = PDict d'"
    using dict_hooks_KeyError [OF assms(3), of "PDict d0 # pre" post] that by simp
  from either have one: "make_hooks_compatible suite = Inl (KeyError, suite)
      \<or> make_hooks_compatible suite = Inl (TypeError, suite)"
    unfolding run by auto
  then have two: "\<forall>h st. make_hooks_compatible suite \<noteq> Inl (RuntimeError h, st)"
    by auto
  have three: "(\<forall>x \<in> set pre. \<exists>d'. x = PDict d') \<longrightarrow>
      make_hooks_compatible suite = Inl (KeyError, suite)"
    unfolding run using key by simp
  have four: "\<forall>good b rest.
          ?hooks = good @ b # rest
          \<and> (\<forall>x \<in> set good. \<exists>d' c. x = PDict d' \<and> map_of d' ''class'' = Some c)
          \<and> (\<forall>d'. b \<noteq> PDict d') \<longrightarrow>
          make_hooks_compatible suite = Inl (TypeError, suite)"
  proof (intro allI impI, elim conjE)
    fix good b rest
    assume eq: "?hooks = good @ b # rest"
      and good: "\<forall>x \<in> set good. \<exists>d' c. x = PDict d' \<and> map_of d' ''class'' = Some c"
      and b: "\<forall>d'. b \<noteq> PDict d'"
    have "dict_hooks (good @ b # rest) = Inl TypeError"
      by (rule dict_hooks_first_TypeError [OF good b])
    then have "dict_hooks ?hooks = Inl TypeError" by (simp only: eq)
    then show "make_hooks_compatible suite = Inl (TypeError, suite)"
      unfolding run by simp
  qed
  have five: "\<forall>good d' rest.
          ?hooks = good @ PDict d' # rest
          \<and> (\<forall>x \<in> set good. \<exists>d'' c. x = PDict d'' \<and> map_of d'' ''class'' = Some c)
          \<and> map_of d' ''class'' = None \<longrightarrow>
          make_hooks_compatible suite = Inl (KeyError, suite)"
  proof (intro allI impI, elim conjE)
    fix good d' rest
    assume eq: "?hooks = good @ PDict d' # rest"
      and good: "\<forall>x \<in> set good. \<exists>d'' c. x = PDict d'' \<and> map_of d'' ''class'' = Some c"
      and d': "map_of d' ''class'' = None"
    from good have "\<forall>x \<in> set good. \<exists>d''. x = PDict d''" by blast
    then have "dict_hooks (good @ PDict d' # rest) = Inl KeyError"
      by (rule dict_hooks_KeyError [OF d'])
    then have "dict_hooks ?hooks = Inl KeyError" by (simp only: eq)
    then show "make_hooks_compatible suite = Inl (KeyError, suite)"
      unfolding run by simp
  qed
  from one two three four five show ?thesis by blast
qed

theorem make_hooks_compatible_missing_class_witness:
  "make_hooks_compatible
     [(''executor'', PDict [(''hooks'', PList [PDict [(''class'', PStr ''A'')],
                                              PDict [(''class'', PStr ''B'')],
                                              PDict [(''name'', PStr ''C'')]])])]
   = Inl (KeyError,
       [(''executor'', PDict [(''hooks'', PList [PDict [(''class'', PStr ''A'')],
                                                PDict [(''class'', PStr ''B'')],
                                                PDict [(''name'', PStr ''C'')]])])])
   \<and> make_hooks_compatible
     [(''executor'', PDict [(''hooks'', PList [PDict [(''class'', PStr ''A'')],
                                              PInt 5,
                                              PDict [(''name'', PStr ''C'')]])])]
   = Inl (TypeError,
       [(''executor'', PDict [(''hooks'', PList [PDict [(''class'', PStr ''A'')],
                                                PInt 5,
                                                PDict [(''name'', PStr ''C'')]])])])"
proof
  let ?fst = "[(''class'', PStr ''A'')]"
  let ?pre = "[PDict [(''class'', PStr ''B'')]]"
  let ?lst = "[(''name'', PStr ''C'')]"
  let ?ex = "[(''hooks'', PList (PDict ?fst # ?pre @ PDict ?lst # []))]"
  have ex: "map_of [(''executor'', PDict ?ex)] ''executor'' = Some (PDict ?ex)" by simp
  have hk: "map_of ?ex ''hooks'' = Some (PList (PDict ?fst # ?pre @ PDict ?lst # []))" by simp
  have cl: "map_of ?lst ''class'' = None" by simp
  have pre: "\<forall>x \<in> set ?pre. \<exists>d'. x = PDict d'" by simp
  from make_hooks_compatible_missing_class
    [OF ex hk cl, THEN conjunct2, THEN conjunct2, THEN conjunct1, THEN mp, OF pre]
  show "make_hooks_compatible
     [(''executor'', PDict [(''hooks'', PList [PDict [(''class'', PStr ''A'')],
                                              PDict [(''class'', PStr ''B'')],
                                              PDict [(''name'', PStr ''C'')]])])]
   = Inl (KeyError,
       [(''executor'', PDict [(''hooks'', PList [PDict [(''class'', PStr ''A'')],
                                                PDict [(''class'', PStr ''B'')],
                                                PDict [(''name'', PStr ''C'')]])])])"
    by simp
next
  let ?fst = "[(''class'', PStr ''A'')]"
  let ?pre = "[PInt 5]"
  let ?lst = "[(''name'', PStr ''C'')]"
  let ?ex = "[(''hooks'', PList (PDict ?fst # ?pre @ PDict ?lst # []))]"
  have ex: "map_of [(''executor'', PDict ?ex)] ''executor'' = Some (PDict ?ex)" by simp
  have hk: "map_of ?ex ''hooks'' = Some (PList (PDict ?fst # ?pre @ PDict ?lst # []))" by simp
  have cl: "map_of ?lst ''class'' = None" by simp
  have split: "PDict ?fst # ?pre @ PDict ?lst # [] = [PDict ?fst] @ PInt 5 # [PDict ?lst]
      \<and> (\<forall>x \<in> set [PDict ?fst]. \<exists>d' c. x = PDict d' \<and> map_of d' ''class'' = Some c)
      \<and> (\<forall>d'. PInt 5 \<noteq> PDict d')"
    by simp
  from make_hooks_compatible_missing_class
    [OF ex hk cl, THEN conjunct2, THEN conjunct2, THEN conjunct2, THEN conjunct1,
     THEN spec, THEN spec, THEN spec, THEN mp, OF split]
  show "make_hooks_compatible
     [(''executor'', PDict [(''hooks'', PList [PDict [(''class'', PStr ''A'')],
                                              PInt 5,
                                              PDict [(''name'', PStr ''C'')]])])]
   = Inl (TypeError,
       [(''executor'', PDict [(''hooks'', PList [PDict [(''class'', PStr ''A'')],
                                                PInt 5,
                                                PDict [(''name'', PStr ''C'')]])])])"
    by simp
qed

lemma delete_archival_frame:
  assumes "map_of suite ''executor'' = Some (PDict ex)"
  defines "suite1 \<equiv> AList.update ''executor'' (PDict (AList.delete ''archive'' ex))
                     (AList.delete ''archive'' suite)"
  shows "get_path [''archive''] (PDict suite1) = None"
    and "get_path [''executor'', ''archive''] (PDict suite1) = None"
    and "get_path [''executor'', ''config''] (PDict suite1) = get_path [''executor'', ''config''] (PDict suite)"
    and "get_path [''selector''] (PDict suite1) = get_path [''selector''] (PDict suite)"
  by (simp_all add: suite1_def map_of_update_same map_of_update_other map_of_delete_same assms(1))

text \<open>
  Claim C7. On every input on which \<open>make_hooks_compatible\<close> raises its
  unsupported-shape error, \<open>delete_archival\<close> has returned, \<open>make_external\<close> raises
  that same error, and the document it leaves is the one \<open>delete_archival\<close> returned:
  it has no \<open>archive\<close> and no \<open>executor.archive\<close>, while \<open>executor.config\<close> (where the
  test data and the shell options live) and \<open>selector\<close> are what they were in the input.
  The witness is an input with both \<open>archive\<close> keys, which the run leaves changed.
\<close>

theorem make_external_not_atomic:
  assumes "make_hooks_compatible suite = Inl (RuntimeError h, st)"
  shows "\<exists>suite1. delete_archival suite = Inr suite1
     \<and> make_hooks_compatible suite1 = Inl (RuntimeError h, suite1)
     \<and> make_external suite = Inl (RuntimeError h, suite1)
     \<and> get_path [''archive''] (PDict suite1) = None
     \<and> get_path [''executor'', ''archive''] (PDict suite1) = None
     \<and> get_path [''executor'', ''config''] (PDict suite1)
         = get_path [''executor'', ''config''] (PDict suite)
     \<and> get_path [''selector''] (PDict suite1) = get_path [''selector''] (PDict suite)"
proof -
  from make_hooks_compatible_RuntimeError [OF assms]
  obtain ex hs where ex: "map_of suite ''executor'' = Some (PDict ex)"
    and hk: "map_of ex ''hooks'' = Some (PList (h # hs))"
    and a: "\<forall>s. h \<noteq> PStr s" and b: "\<forall>d. h \<noteq> PDict d"
    by blast
  from make_external_unknown_first [OF ex hk a b] delete_archival_frame [OF ex]
  show ?thesis by blast
qed

theorem make_external_not_atomic_witness:
  "make_hooks_compatible
     [(''archive'', PBool True),
      (''executor'', PDict [(''hooks'', PList [PInt 3]), (''archive'', PBool True)])]
   = Inl (RuntimeError (PInt 3),
       [(''archive'', PBool True),
        (''executor'', PDict [(''hooks'', PList [PInt 3]), (''archive'', PBool True)])])
   \<and> make_external
     [(''archive'', PBool True),
      (''executor'', PDict [(''hooks'', PList [PInt 3]), (''archive'', PBool True)])]
   = Inl (RuntimeError (PInt 3), [(''executor'', PDict [(''hooks'', PList [PInt 3])])])"
proof -
  let ?suite = "[(''archive'', PBool True),
      (''executor'', PDict [(''hooks'', PList [PInt 3]), (''archive'', PBool True)])]"
  have raised: "make_hooks_compatible ?suite = Inl (RuntimeError (PInt 3), ?suite)"
    by (simp add: make_hooks_compatible_def hooks_rewrite_def new_hooks_def)
  from make_external_not_atomic [OF raised]
  obtain suite1 where del: "delete_archival ?suite = Inr suite1"
    and ext: "make_external ?suite = Inl (RuntimeError (PInt 3), suite1)"
    by blast
  from del have "suite1 = [(''executor'', PDict [(''hooks'', PList [PInt 3])])]"
    by (simp add: delete_archival_def)
  with raised ext show ?thesis by simp
qed

section \<open>\<open>update_test_data\<close>\<close>

lemma get_path_append:
  "get_path (ks @ [k]) v =
     (case get_path ks v of Some (PDict d) \<Rightarrow> map_of d k | _ \<Rightarrow> None)"
proof (induction ks arbitrary: v)
  case Nil
  show ?case by (cases v) (simp_all split: option.splits)
next
  case (Cons k0 ks)
  show ?case by (cases v) (simp_all add: Cons.IH split: option.splits)
qed

lemma map_of_dict_at: "map_of (dict_at ks d) k = get_path (ks @ [k]) (PDict d)"
  by (simp add: get_path_append dict_at_def split: option.splits pyval.splits)

lemma get_path_dicts_along: "get_path ks v = Some (PDict td) \<Longrightarrow> dicts_along ks v"
proof (induction ks arbitrary: v)
  case Nil
  then show ?case by simp
next
  case (Cons k ks)
  then show ?case by (cases v) (auto split: option.splits)
qed

lemma setdefault_path_returns:
  "dicts_along ks (PDict d) \<Longrightarrow> body (dict_at ks d) = Inr r0 \<Longrightarrow>
     \<exists>r. setdefault_path ks body d = Inr r"
proof (induction ks arbitrary: d)
  case Nil
  then show ?case by (simp add: dict_at_def)
next
  case (Cons k ks)
  show ?case
  proof (cases "map_of d k")
    case None
    with Cons.prems(2) have "body (dict_at ks []) = Inr r0"
      by (simp add: dict_at_Cons_absent dict_at_empty)
    moreover have "dicts_along ks (PDict [])" by (cases ks) simp_all
    ultimately obtain r where "setdefault_path ks body [] = Inr r"
      using Cons.IH by blast
    with None show ?thesis
      by (simp add: setdefault_dict_def map_of_update_same)
  next
    case (Some v)
    with Cons.prems(1) have "dicts_along ks v" by simp
    then obtain sub where v: "v = PDict sub" using dicts_along_dict by blast
    from Cons.prems(1) Some v have "dicts_along ks (PDict sub)" by simp
    moreover from Cons.prems(2) Some v have "body (dict_at ks sub) = Inr r0"
      by (simp add: dict_at_Cons_dict)
    ultimately obtain r where "setdefault_path ks body sub = Inr r"
      using Cons.IH by blast
    with Some v show ?thesis
      by (simp add: setdefault_dict_def)
  qed
qed

lemma update_test_data_path:
  "update_test_data =
     setdefault_path [''executor'', ''config'', ''shell_options'', ''global_vars'', ''TestData'']
       (\<lambda>td. Inr (AList.update ''useActionPermittedFile'' (PBool False) td))"
  by (rule ext) (simp add: update_test_data_def)

lemma update_test_data_returns:
  assumes "dicts_along [''executor'', ''config'', ''shell_options'', ''global_vars'', ''TestData'']
             (PDict suite)"
  shows "\<exists>suite'. update_test_data suite = Inr suite'"
  unfolding update_test_data_path
  by (rule setdefault_path_returns [OF assms]) (rule refl)

lemma update_test_data_flag:
  assumes "update_test_data suite = Inr suite'"
  shows "get_path [''executor'', ''config'', ''shell_options'', ''global_vars'', ''TestData'',
                   ''useActionPermittedFile''] (PDict suite') = Some (PBool False)"
proof -
  let ?P = "[''executor'', ''config'', ''shell_options'', ''global_vars'', ''TestData'']"
  let ?f = "\<lambda>td. Inr (AList.update ''useActionPermittedFile'' (PBool False) td) :: outcome"
  from assms have path: "setdefault_path ?P ?f suite = Inr suite'"
    by (simp only: update_test_data_path)
  from setdefault_path_Inr [OF path]
  obtain td' where b: "?f (dict_at ?P suite) = Inr td'"
    and g: "get_path ?P (PDict suite') = Some (PDict td')"
    by blast
  from b have m: "map_of td' ''useActionPermittedFile'' = Some (PBool False)"
    by (auto simp: map_of_update_same)
  have "get_path (?P @ [''useActionPermittedFile'']) (PDict suite') = Some (PBool False)"
    by (simp only: get_path_append g m option.case pyval.case)
  then show ?thesis by (simp only: append.simps)
qed

lemma update_test_data_idem:
  assumes "update_test_data suite = Inr suite'"
  shows "update_test_data suite' = Inr suite'"
proof -
  let ?P = "[''executor'', ''config'', ''shell_options'', ''global_vars'', ''TestData'']"
  let ?f = "\<lambda>td. Inr (AList.update ''useActionPermittedFile'' (PBool False) td) :: outcome"
  from assms have path: "setdefault_path ?P ?f suite = Inr suite'"
    by (simp only: update_test_data_path)
  have "setdefault_path ?P ?f suite' = Inr suite'"
  proof (rule setdefault_path_idem [OF _ path])
    fix sub sub' :: dict
    assume "?f sub = Inr sub'"
    then show "?f sub' = Inr sub'" by auto
  qed
  then show ?thesis by (simp only: update_test_data_path)
qed

text \<open>
  Claim C4. On the empty document \<open>update_test_data\<close> makes the five mappings
  \<open>executor\<close>, \<open>config\<close>, \<open>shell_options\<close>, \<open>global_vars\<close>, \<open>TestData\<close>, one in the
  other, and sets \<open>useActionPermittedFile\<close> to \<open>False\<close> in the last. On every document
  in which the keys of that path that are there hold mappings, it returns, and in the
  document it leaves \<open>useActionPermittedFile\<close> is \<open>False\<close> whatever it was before;
  running it again on the result returns the result unchanged.
\<close>

theorem update_test_data_sets_flag:
  assumes "dicts_along [''executor'', ''config'', ''shell_options'', ''global_vars'', ''TestData'']
             (PDict suite)"
  shows "update_test_data [] =
           Inr [(''executor'', PDict [(''config'', PDict [(''shell_options'',
                  PDict [(''global_vars'', PDict [(''TestData'',
                    PDict [(''useActionPermittedFile'', PBool False)])])])])])]
     \<and> (\<exists>suite'. update_test_data suite = Inr suite'
          \<and> get_path [''executor'', ''config'', ''shell_options'', ''global_vars'', ''TestData'',
                       ''useActionPermittedFile''] (PDict suite') = Some (PBool False)
          \<and> update_test_data suite' = Inr suite')"
proof
  show "update_test_data [] =
           Inr [(''executor'', PDict [(''config'', PDict [(''shell_options'',
                  PDict [(''global_vars'', PDict [(''TestData'',
                    PDict [(''useActionPermittedFile'', PBool False)])])])])])]"
    by (simp add: update_test_data_def setdefault_dict_def)
next
  from update_test_data_returns [OF assms]
  obtain suite' where run: "update_test_data suite = Inr suite'" ..
  with update_test_data_flag [OF run] update_test_data_idem [OF run]
  show "\<exists>suite'. update_test_data suite = Inr suite'
          \<and> get_path [''executor'', ''config'', ''shell_options'', ''global_vars'', ''TestData'',
                       ''useActionPermittedFile''] (PDict suite') = Some (PBool False)
          \<and> update_test_data suite' = Inr suite'"
    by blast
qed

theorem update_test_data_sets_flag_witness:
  "dicts_along [''executor'', ''config'', ''shell_options'', ''global_vars'', ''TestData'']
     (PDict [(''executor'', PDict [(''config'', PDict [(''shell_options'',
               PDict [(''global_vars'', PDict [(''TestData'',
                 PDict [(''useActionPermittedFile'', PBool True)])])])])])])
   \<and> (\<exists>suite'. update_test_data
          [(''executor'', PDict [(''config'', PDict [(''shell_options'',
               PDict [(''global_vars'', PDict [(''TestData'',
                 PDict [(''useActionPermittedFile'', PBool True)])])])])])] = Inr suite'
          \<and> get_path [''executor'', ''config'', ''shell_options'', ''global_vars'', ''TestData'',
                       ''useActionPermittedFile''] (PDict suite') = Some (PBool False)
          \<and> update_test_data suite' = Inr suite')"
proof -
  let ?suite = "[(''executor'', PDict [(''config'', PDict [(''shell_options'',
               PDict [(''global_vars'', PDict [(''TestData'',
                 PDict [(''useActionPermittedFile'', PBool True)])])])])])]"
  have ok: "dicts_along [''executor'', ''config'', ''shell_options'', ''global_vars'', ''TestData'']
      (PDict ?suite)" by simp
  from update_test_data_sets_flag [OF ok] ok show ?thesis by blast
qed

text \<open>
  Claim C9. On every document in which
  \<open>executor.config.shell_options.global_vars.TestData\<close> is a mapping,
  \<open>update_test_data\<close> returns, and wherever the path
  \<open>executor.config.shell_options.global_vars.TestData.useActionPermittedFile\<close> goes
  through a key \<open>k'\<close> of a mapping, every other key \<open>k\<close> of that mapping holds what it
  held before: the fields of \<open>TestData\<close> other than \<open>useActionPermittedFile\<close>, and the
  siblings of \<open>TestData\<close>, \<open>global_vars\<close>, \<open>shell_options\<close>, \<open>config\<close> and \<open>executor\<close>.
\<close>

theorem update_test_data_frame:
  assumes "get_path [''executor'', ''config'', ''shell_options'', ''global_vars'', ''TestData'']
             (PDict suite) = Some (PDict td)"
  shows "\<exists>suite'. update_test_data suite = Inr suite'
     \<and> (\<forall>p k' rest k.
          [''executor'', ''config'', ''shell_options'', ''global_vars'', ''TestData'',
           ''useActionPermittedFile''] = p @ k' # rest \<and> k \<noteq> k' \<longrightarrow>
          get_path (p @ [k]) (PDict suite') = get_path (p @ [k]) (PDict suite))"
proof -
  let ?P = "[''executor'', ''config'', ''shell_options'', ''global_vars'', ''TestData'']"
  let ?f = "\<lambda>td. Inr (AList.update ''useActionPermittedFile'' (PBool False) td) :: outcome"
  from update_test_data_returns [OF get_path_dicts_along [OF assms]]
  obtain suite' where run: "update_test_data suite = Inr suite'" ..
  then have path: "setdefault_path ?P ?f suite = Inr suite'"
    by (simp only: update_test_data_path)
  have "get_path (p @ [k]) (PDict suite') = get_path (p @ [k]) (PDict suite)"
    if "?P @ [''useActionPermittedFile''] = p @ k' # rest" and "k \<noteq> k'" for p k' rest k
  proof (rule setdefault_path_frame [OF _ path that])
    fix sub sub' :: dict and k :: string
    assume "?f sub = Inr sub'" and "k \<noteq> ''useActionPermittedFile''"
    then show "map_of sub' k = map_of sub k"
      by (auto simp: map_of_update_other)
  qed
  with run show ?thesis by auto
qed

theorem update_test_data_frame_witness:
  "\<exists>suite'. update_test_data
       [(''executor'', PDict [(''hooks'', PList [PStr ''X'']), (''config'', PDict [(''shell_options'',
            PDict [(''global_vars'', PDict [(''TestData'',
              PDict [(''useActionPermittedFile'', PBool True), (''seed'', PInt 7)])])])])])]
     = Inr suite'
   \<and> get_path [''executor'', ''config'', ''shell_options'', ''global_vars'', ''TestData'', ''seed'']
        (PDict suite') = Some (PInt 7)
   \<and> get_path [''executor'', ''hooks''] (PDict suite') = Some (PList [PStr ''X''])"
proof -
  let ?suite = "[(''executor'', PDict [(''hooks'', PList [PStr ''X'']), (''config'', PDict [(''shell_options'',
            PDict [(''global_vars'', PDict [(''TestData'',
              PDict [(''useActionPermittedFile'', PBool True), (''seed'', PInt 7)])])])])])]"
  let ?P = "[''executor'', ''config'', ''shell_options'', ''global_vars'', ''TestData'']"
  have td: "get_path ?P (PDict ?suite)
      = Some (PDict [(''useActionPermittedFile'', PBool True), (''seed'', PInt 7)])"
    by simp
  from update_test_data_frame [OF td]
  obtain suite' where both: "update_test_data ?suite = Inr suite'
     \<and> (\<forall>p k' rest k.
          [''executor'', ''config'', ''shell_options'', ''global_vars'', ''TestData'',
           ''useActionPermittedFile''] = p @ k' # rest \<and> k \<noteq> k' \<longrightarrow>
          get_path (p @ [k]) (PDict suite') = get_path (p @ [k]) (PDict ?suite))" ..
  then have run: "update_test_data ?suite = Inr suite'" by (rule conjunct1)
  from both have frame: "\<forall>p k' rest k.
          [''executor'', ''config'', ''shell_options'', ''global_vars'', ''TestData'',
           ''useActionPermittedFile''] = p @ k' # rest \<and> k \<noteq> k' \<longrightarrow>
          get_path (p @ [k]) (PDict suite') = get_path (p @ [k]) (PDict ?suite)"
    by (rule conjunct2)
  have seed: "get_path [''executor'', ''config'', ''shell_options'', ''global_vars'', ''TestData'', ''seed'']
      (PDict suite') = Some (PInt 7)"
    using frame [rule_format, of ?P "''useActionPermittedFile''" "[]" "''seed''"] by simp
  have hooks: "get_path [''executor'', ''hooks''] (PDict suite') = Some (PList [PStr ''X''])"
    using frame [rule_format, of "[''executor'']" "''config''"
        "[''shell_options'', ''global_vars'', ''TestData'', ''useActionPermittedFile'']" "''hooks''"]
    by simp
  from run seed hooks show ?thesis by blast
qed

section \<open>\<open>update_shell\<close> and \<open>update_exclude_tags\<close>\<close>

lemma update_shell_path:
  "update_shell = setdefault_path [''executor'', ''config'', ''shell_options''] eval_append"
  by (rule ext) (simp add: update_shell_def)

lemma eval_append_absent:
  "map_of so ''eval'' = None \<Longrightarrow>
     eval_append so = Inr (AList.update ''eval'' (PStr jsTestLog_noop) so)"
  by (simp add: eval_append_def map_of_update_same)

lemma eval_append_str:
  "map_of so ''eval'' = Some (PStr s) \<Longrightarrow>
     eval_append so = Inr (AList.update ''eval'' (PStr (s @ jsTestLog_noop)) so)"
  by (simp add: eval_append_def)

lemma update_shell_appends:
  assumes shape: "dicts_along [''executor'', ''config'', ''shell_options''] (PDict suite)"
    and old: "get_path [''executor'', ''config'', ''shell_options'', ''eval''] (PDict suite) = None
            \<and> s = []
          \<or> get_path [''executor'', ''config'', ''shell_options'', ''eval''] (PDict suite)
            = Some (PStr s)"
  shows "\<exists>suite'. update_shell suite = Inr suite'
     \<and> get_path [''executor'', ''config'', ''shell_options'', ''eval''] (PDict suite')
         = Some (PStr (s @ jsTestLog_noop))"
proof -
  let ?S = "[''executor'', ''config'', ''shell_options'']"
  let ?so = "dict_at ?S suite"
  have look: "map_of ?so ''eval'' = get_path (?S @ [''eval'']) (PDict suite)"
    by (rule map_of_dict_at)
  from old have body: "eval_append ?so = Inr (AList.update ''eval'' (PStr (s @ jsTestLog_noop)) ?so)"
  proof
    assume "get_path [''executor'', ''config'', ''shell_options'', ''eval''] (PDict suite) = None
        \<and> s = []"
    with look have "map_of ?so ''eval'' = None" and "s = []" by simp_all
    then show ?thesis by (simp add: eval_append_absent)
  next
    assume "get_path [''executor'', ''config'', ''shell_options'', ''eval''] (PDict suite)
        = Some (PStr s)"
    with look have "map_of ?so ''eval'' = Some (PStr s)" by simp
    then show ?thesis by (rule eval_append_str)
  qed
  from setdefault_path_returns [where body = eval_append, OF shape body]
  obtain suite' where path: "setdefault_path ?S eval_append suite = Inr suite'" ..
  from setdefault_path_Inr [OF path]
  obtain so' where b: "eval_append ?so = Inr so'"
    and g: "get_path ?S (PDict suite') = Some (PDict so')"
    by blast
  from b body have "map_of so' ''eval'' = Some (PStr (s @ jsTestLog_noop))"
    by (auto simp: map_of_update_same)
  with g have "get_path (?S @ [''eval'']) (PDict suite') = Some (PStr (s @ jsTestLog_noop))"
    by (simp only: get_path_append option.case pyval.case)
  then have "get_path [''executor'', ''config'', ''shell_options'', ''eval''] (PDict suite')
      = Some (PStr (s @ jsTestLog_noop))"
    by (simp only: append.simps)
  moreover from path have "update_shell suite = Inr suite'"
    by (simp only: update_shell_path)
  ultimately show ?thesis by blast
qed

lemma update_shell_twice:
  "update_shell [] =
     Inr [(''executor'', PDict [(''config'', PDict [(''shell_options'',
            PDict [(''eval'', PStr jsTestLog_noop)])])])]"
  "update_shell [(''executor'', PDict [(''config'', PDict [(''shell_options'',
            PDict [(''eval'', PStr jsTestLog_noop)])])])] =
     Inr [(''executor'', PDict [(''config'', PDict [(''shell_options'',
            PDict [(''eval'', PStr (jsTestLog_noop @ jsTestLog_noop))])])])]"
  by (simp_all add: update_shell_def setdefault_dict_def eval_append_def)

text \<open>
  Claim C5. On every document in which the keys of \<open>executor.config.shell_options\<close>
  that are there hold mappings and \<open>eval\<close>, when it is there, is a string \<open>s\<close> (\<open>s\<close> is
  empty when it is not there), \<open>update_shell\<close> returns, and \<open>eval\<close> is then \<open>s\<close>
  followed by the statement \<open>jsTestLog = Function.prototype;\<close>. It is not idempotent:
  on the empty document a first run leaves \<open>eval\<close> equal to the statement, and a second
  run on that result leaves another document, in which \<open>eval\<close> is the statement twice.
\<close>

theorem update_shell_not_idempotent:
  assumes "dicts_along [''executor'', ''config'', ''shell_options''] (PDict suite)"
    and "get_path [''executor'', ''config'', ''shell_options'', ''eval''] (PDict suite) = None
            \<and> s = []
          \<or> get_path [''executor'', ''config'', ''shell_options'', ''eval''] (PDict suite)
            = Some (PStr s)"
  shows "(\<exists>suite'. update_shell suite = Inr suite'
           \<and> get_path [''executor'', ''config'', ''shell_options'', ''eval''] (PDict suite')
               = Some (PStr (s @ ''jsTestLog = Function.prototype;'')))
     \<and> (\<exists>once twice. update_shell [] = Inr once \<and> update_shell once = Inr twice
           \<and> twice \<noteq> once
           \<and> get_path [''executor'', ''config'', ''shell_options'', ''eval''] (PDict twice)
               = Some (PStr (''jsTestLog = Function.prototype;''
                             @ ''jsTestLog = Function.prototype;'')))"
proof
  from update_shell_appends [OF assms]
  show "\<exists>suite'. update_shell suite = Inr suite'
           \<and> get_path [''executor'', ''config'', ''shell_options'', ''eval''] (PDict suite')
               = Some (PStr (s @ ''jsTestLog = Function.prototype;''))"
    by (simp only: jsTestLog_noop_def)
next
  let ?once = "[(''executor'', PDict [(''config'', PDict [(''shell_options'',
            PDict [(''eval'', PStr jsTestLog_noop)])])])]"
  let ?twice = "[(''executor'', PDict [(''config'', PDict [(''shell_options'',
            PDict [(''eval'', PStr (jsTestLog_noop @ jsTestLog_noop))])])])]"
  have "?twice \<noteq> ?once" by (simp add: jsTestLog_noop_def)
  moreover have "get_path [''executor'', ''config'', ''shell_options'', ''eval''] (PDict ?twice)
      = Some (PStr (jsTestLog_noop @ jsTestLog_noop))"
    by simp
  ultimately have "update_shell [] = Inr ?once \<and> update_shell ?once = Inr ?twice
      \<and> ?twice \<noteq> ?once
      \<and> get_path [''executor'', ''config'', ''shell_options'', ''eval''] (PDict ?twice)
          = Some (PStr (jsTestLog_noop @ jsTestLog_noop))"
    using update_shell_twice by blast
  then show "\<exists>once twice. update_shell [] = Inr once \<and> update_shell once = Inr twice
           \<and> twice \<noteq> once
           \<and> get_path [''executor'', ''config'', ''shell_options'', ''eval''] (PDict twice)
               = Some (PStr (''jsTestLog = Function.prototype;''
                             @ ''jsTestLog = Function.prototype;''))"
    unfolding jsTestLog_noop_def by blast
qed

theorem update_shell_not_idempotent_witness:
  "\<exists>suite'. update_shell
       [(''executor'', PDict [(''config'', PDict [(''shell_options'',
           PDict [(''eval'', PStr ''load(1);'')])])])] = Inr suite'
     \<and> get_path [''executor'', ''config'', ''shell_options'', ''eval''] (PDict suite')
         = Some (PStr ''load(1);jsTestLog = Function.prototype;'')"
proof -
  let ?suite = "[(''executor'', PDict [(''config'', PDict [(''shell_options'',
           PDict [(''eval'', PStr ''load(1);'')])])])]"
  have shape: "dicts_along [''executor'', ''config'', ''shell_options''] (PDict ?suite)"
    by simp
  have old: "get_path [''executor'', ''config'', ''shell_options'', ''eval''] (PDict ?suite) = None
            \<and> ''load(1);'' = []
          \<or> get_path [''executor'', ''config'', ''shell_options'', ''eval''] (PDict ?suite)
            = Some (PStr ''load(1);'')"
    by simp
  from update_shell_not_idempotent [OF shape old]
  have "\<exists>suite'. update_shell ?suite = Inr suite'
           \<and> get_path [''executor'', ''config'', ''shell_options'', ''eval''] (PDict suite')
               = Some (PStr (''load(1);'' @ ''jsTestLog = Function.prototype;''))"
    by (rule conjunct1)
  then show ?thesis by simp
qed

lemma update_exclude_tags_path:
  "update_exclude_tags = setdefault_path [''selector''] exclude_tags"
  by (rule ext) (simp add: update_exclude_tags_def)

lemma update_exclude_tags_result:
  assumes shape: "dicts_along [''selector''] (PDict suite)"
    and body: "exclude_tags (dict_at [''selector''] suite)
        = Inr (AList.update ''exclude_with_any_tags'' v (dict_at [''selector''] suite))"
  shows "\<exists>suite'. update_exclude_tags suite = Inr suite'
     \<and> get_path [''selector'', ''exclude_with_any_tags''] (PDict suite') = Some v"
proof -
  from setdefault_path_returns [where body = exclude_tags, OF shape body]
  obtain suite' where path: "setdefault_path [''selector''] exclude_tags suite = Inr suite'" ..
  from setdefault_path_Inr [OF path]
  obtain sel' where b: "exclude_tags (dict_at [''selector''] suite) = Inr sel'"
    and g: "get_path [''selector''] (PDict suite') = Some (PDict sel')"
    by blast
  from b body have "map_of sel' ''exclude_with_any_tags'' = Some v"
    by (auto simp: map_of_update_same)
  with g have "get_path ([''selector''] @ [''exclude_with_any_tags'']) (PDict suite') = Some v"
    by (simp only: get_path_append option.case pyval.case)
  then have "get_path [''selector'', ''exclude_with_any_tags''] (PDict suite') = Some v"
    by (simp only: append.simps)
  moreover from path have "update_exclude_tags suite = Inr suite'"
    by (simp only: update_exclude_tags_path)
  ultimately show ?thesis by blast
qed

text \<open>
  Claim C6. Let \<open>selector\<close>, when it is there, be a mapping. If
  \<open>selector.exclude_with_any_tags\<close> is missing or falsy, \<open>update_exclude_tags\<close> returns
  and leaves it equal to the one-element list \<open>["antithesis_incompatible"]\<close>. If it is a
  non-empty list, \<open>update_exclude_tags\<close> returns and leaves it equal to that list, with
  its elements in their order, followed by \<open>"antithesis_incompatible"\<close>.
\<close>

theorem update_exclude_tags_adds_tag:
  assumes "dicts_along [''selector''] (PDict suite)"
  shows "((case get_path [''selector'', ''exclude_with_any_tags''] (PDict suite) of
             None \<Rightarrow> True | Some v \<Rightarrow> \<not> truthy v) \<longrightarrow>
          (\<exists>suite'. update_exclude_tags suite = Inr suite'
             \<and> get_path [''selector'', ''exclude_with_any_tags''] (PDict suite')
                 = Some (PList [PStr ''antithesis_incompatible''])))
     \<and> (\<forall>tags. tags \<noteq> []
           \<and> get_path [''selector'', ''exclude_with_any_tags''] (PDict suite) = Some (PList tags) \<longrightarrow>
          (\<exists>suite'. update_exclude_tags suite = Inr suite'
             \<and> get_path [''selector'', ''exclude_with_any_tags''] (PDict suite')
                 = Some (PList (tags @ [PStr ''antithesis_incompatible'']))))"
proof (intro conjI allI impI)
  let ?sel = "dict_at [''selector''] suite"
  have look: "map_of ?sel ''exclude_with_any_tags''
      = get_path ([''selector''] @ [''exclude_with_any_tags'']) (PDict suite)"
    by (rule map_of_dict_at)
  assume "case get_path [''selector'', ''exclude_with_any_tags''] (PDict suite) of
             None \<Rightarrow> True | Some v \<Rightarrow> \<not> truthy v"
  with look have "case map_of ?sel ''exclude_with_any_tags'' of
             None \<Rightarrow> True | Some v \<Rightarrow> \<not> truthy v"
    by simp
  then have "exclude_tags ?sel
      = Inr (AList.update ''exclude_with_any_tags'' (PList [PStr ''antithesis_incompatible'']) ?sel)"
    by (simp add: exclude_tags_def split: option.splits)
  from update_exclude_tags_result [OF assms this]
  show "\<exists>suite'. update_exclude_tags suite = Inr suite'
             \<and> get_path [''selector'', ''exclude_with_any_tags''] (PDict suite')
                 = Some (PList [PStr ''antithesis_incompatible''])" .
next
  fix tags
  let ?sel = "dict_at [''selector''] suite"
  have look: "map_of ?sel ''exclude_with_any_tags''
      = get_path ([''selector''] @ [''exclude_with_any_tags'']) (PDict suite)"
    by (rule map_of_dict_at)
  assume "tags \<noteq> []
      \<and> get_path [''selector'', ''exclude_with_any_tags''] (PDict suite) = Some (PList tags)"
  with look have "tags \<noteq> []" and "map_of ?sel ''exclude_with_any_tags'' = Some (PList tags)"
    by simp_all
  then have "exclude_tags ?sel
      = Inr (AList.update ''exclude_with_any_tags''
               (PList (tags @ [PStr ''antithesis_incompatible''])) ?sel)"
    by (simp add: exclude_tags_def)
  from update_exclude_tags_result [OF assms this]
  show "\<exists>suite'. update_exclude_tags suite = Inr suite'
             \<and> get_path [''selector'', ''exclude_with_any_tags''] (PDict suite')
                 = Some (PList (tags @ [PStr ''antithesis_incompatible'']))" .
qed

theorem update_exclude_tags_adds_tag_witness:
  "(\<exists>suite'. update_exclude_tags [] = Inr suite'
      \<and> get_path [''selector'', ''exclude_with_any_tags''] (PDict suite')
          = Some (PList [PStr ''antithesis_incompatible'']))
   \<and> (\<exists>suite'. update_exclude_tags
          [(''selector'', PDict [(''exclude_with_any_tags'', PList [PStr ''foo''])])] = Inr suite'
      \<and> get_path [''selector'', ''exclude_with_any_tags''] (PDict suite')
          = Some (PList [PStr ''foo'', PStr ''antithesis_incompatible'']))"
proof
  have shape: "dicts_along [''selector''] (PDict [])" by simp
  have absent: "case get_path [''selector'', ''exclude_with_any_tags''] (PDict []) of
      None \<Rightarrow> True | Some v \<Rightarrow> \<not> truthy v"
    by simp
  from update_exclude_tags_adds_tag [OF shape, THEN conjunct1, THEN mp, OF absent]
  show "\<exists>suite'. update_exclude_tags [] = Inr suite'
      \<and> get_path [''selector'', ''exclude_with_any_tags''] (PDict suite')
          = Some (PList [PStr ''antithesis_incompatible''])" .
next
  let ?suite = "[(''selector'', PDict [(''exclude_with_any_tags'', PList [PStr ''foo''])])]"
  have shape: "dicts_along [''selector''] (PDict ?suite)" by simp
  have tags: "[PStr ''foo''] \<noteq> []
      \<and> get_path [''selector'', ''exclude_with_any_tags''] (PDict ?suite) = Some (PList [PStr ''foo''])"
    by simp
  from update_exclude_tags_adds_tag [OF shape, THEN conjunct2, THEN spec, THEN mp, OF tags]
  have "\<exists>suite'. update_exclude_tags ?suite = Inr suite'
      \<and> get_path [''selector'', ''exclude_with_any_tags''] (PDict suite')
          = Some (PList ([PStr ''foo''] @ [PStr ''antithesis_incompatible'']))" .
  then show "\<exists>suite'. update_exclude_tags ?suite = Inr suite'
      \<and> get_path [''selector'', ''exclude_with_any_tags''] (PDict suite')
          = Some (PList [PStr ''foo'', PStr ''antithesis_incompatible''])"
    by simp
qed

end
